theory Spec2Isabelle
  imports Main "HOL-Library.AList" "HOL-Library.Sublist" "HOL-Library.Word"
begin

section \<open>JavaScript strings and Node path functions\<close>

text \<open>
  Strings are lists of 8-bit characters: the model covers text whose code units are
  below 256 (for ASCII text a code unit, a byte of the UTF-8 file and a \<open>char\<close>
  coincide). The functions below are the library calls \<open>index.js\<close> makes on strings,
  named as in JavaScript.
\<close>

definition isWhiteSpace :: "char \<Rightarrow> bool" where
  \<comment> \<open>what \<open>String.prototype.trim\<close> removes and \<open>\s\<close> matches, below code 256\<close>
  "isWhiteSpace c =
     (c = CHR 0x09 \<or> c = CHR 0x0A \<or> c = CHR 0x0B \<or> c = CHR 0x0C \<or> c = CHR 0x0D \<or>
      c = CHR 0x20 \<or> c = CHR 0xA0)"

definition trim :: "string \<Rightarrow> string" where
  "trim s = rev (dropWhile isWhiteSpace (rev (dropWhile isWhiteSpace s)))"

definition startsWith :: "string \<Rightarrow> string \<Rightarrow> bool" where
  \<comment> \<open>\<open>s.startsWith(p)\<close>\<close>
  "startsWith s p = (take (length p) s = p)"

definition endsWith :: "string \<Rightarrow> string \<Rightarrow> bool" where
  "endsWith s p = (length p \<le> length s \<and> drop (length s - length p) s = p)"

fun str_split :: "char \<Rightarrow> string \<Rightarrow> string list" where
  \<comment> \<open>\<open>s.split(c)\<close> for a one-character separator: never empty, \<open>''''\<close> gives \<open>['''']\<close>\<close>
  "str_split c [] = [[]]"
| "str_split c (x # xs) =
     (if x = c then [] # str_split c xs
      else (case str_split c xs of [] \<Rightarrow> [[x]] | l # ls \<Rightarrow> (x # l) # ls))"

fun str_includes :: "string \<Rightarrow> string \<Rightarrow> bool" where
  \<comment> \<open>\<open>s.includes(n)\<close>: \<open>n\<close> occurs in \<open>s\<close> as a substring\<close>
  "str_includes [] n = (n = [])"
| "str_includes (x # xs) n = (startsWith (x # xs) n \<or> str_includes xs n)"

definition toLowerCase_char :: "char \<Rightarrow> char" where
  \<comment> \<open>the capital letters below code 256: \<open>A\<close> to \<open>Z\<close>, and \<open>0xC0\<close> to \<open>0xDE\<close>
      but for the multiplication sign \<open>0xD7\<close>\<close>
  "toLowerCase_char c =
     (let n = (of_char c :: nat)
      in if (65 \<le> n \<and> n \<le> 90) \<or> (192 \<le> n \<and> n \<le> 222 \<and> n \<noteq> 215)
         then char_of (n + 32) else c)"

definition toLowerCase :: "string \<Rightarrow> string" where
  "toLowerCase s = map toLowerCase_char s"

definition or_else :: "string \<Rightarrow> string \<Rightarrow> string" where
  \<comment> \<open>\<open>a || b\<close> on strings: the empty string is falsy\<close>
  "or_else a b = (if a = [] then b else a)"

definition NL :: char where
  "NL = CHR 0x0A"

text \<open>
  \<open>path.basename\<close> and \<open>path.extname\<close> of Node, POSIX flavour: the last component of
  the path (trailing separators dropped), and that component from its last dot on; a
  component with no dot, with its only dot in front, or equal to \<open>..\<close> has the empty
  extension.
\<close>

definition isSep :: "char \<Rightarrow> bool" where
  "isSep c = (c = CHR ''/'')"

definition basename :: "string \<Rightarrow> string" where
  "basename p = rev (takeWhile (\<lambda>c. \<not> isSep c) (dropWhile isSep (rev p)))"

definition extname :: "string \<Rightarrow> string" where
  "extname p =
     (let b = basename p;
          after = takeWhile (\<lambda>c. c \<noteq> CHR ''.'') (rev b);
          upto = dropWhile (\<lambda>c. c \<noteq> CHR ''.'') (rev b)
      in if upto = [] then []
         else if tl upto = [] then []
         else if b = ''..'' then []
         else CHR ''.'' # rev after)"

section \<open>Configuration constants of \<open>TimeponServer\<close>\<close>

definition MAX_FILE_SIZE :: nat where
  "MAX_FILE_SIZE = 1024 * 1024"

definition BINARY_DETECTION_SAMPLE :: nat where
  "BINARY_DETECTION_SAMPLE = 512"

definition SAVE_RETRY_MAX :: nat where
  "SAVE_RETRY_MAX = 3"

definition SAVE_RETRY_BASE_DELAY :: nat where
  "SAVE_RETRY_BASE_DELAY = 1000"

section \<open>The binary/text classifier\<close>

definition knownTextExts :: "string list" where
  "knownTextExts =
     [''.txt'', ''.md'', ''.json'', ''.js'', ''.ts'', ''.py'', ''.java'',
      ''.cs'', ''.go'', ''.rb'', ''.php'', ''.html'', ''.css'', ''.xml'',
      ''.yaml'', ''.yml'', ''.toml'', ''.ini'', ''.sh'', ''.bat'', ''.ps1'']"

definition knownBinaryExts :: "string list" where
  "knownBinaryExts =
     [''.exe'', ''.dll'', ''.so'', ''.dylib'', ''.bin'', ''.dat'',
      ''.zip'', ''.tar'', ''.gz'', ''.7z'', ''.rar'', ''.jpg'', ''.jpeg'',
      ''.png'', ''.gif'', ''.bmp'', ''.pdf'', ''.doc'', ''.docx'', ''.xls'']"

type_synonym byte = "8 word"

definition magicBytes :: "byte list \<Rightarrow> bool" where
  \<comment> \<open>the five signature tests, made only on a buffer of at least four bytes\<close>
  "magicBytes buffer =
     (4 \<le> length buffer \<and>
      ((buffer ! 0 = 0x50 \<and> buffer ! 1 = 0x4B) \<or>
       (buffer ! 0 = 0x89 \<and> buffer ! 1 = 0x50 \<and> buffer ! 2 = 0x4E \<and> buffer ! 3 = 0x47) \<or>
       (buffer ! 0 = 0x47 \<and> buffer ! 1 = 0x49 \<and> buffer ! 2 = 0x46) \<or>
       (buffer ! 0 = 0xFF \<and> buffer ! 1 = 0xD8) \<or>
       (buffer ! 0 = 0x25 \<and> buffer ! 1 = 0x50 \<and> buffer ! 2 = 0x44 \<and> buffer ! 3 = 0x46)))"

definition nonPrintableByte :: "byte \<Rightarrow> bool" where
  "nonPrintableByte b = (b < 32 \<and> b \<noteq> 9 \<and> b \<noteq> 10 \<and> b \<noteq> 13)"

definition isBinary :: "byte list \<Rightarrow> string \<Rightarrow> bool" where
  \<comment> \<open>\<open>nonPrintable / sampleSize > 0.3\<close> is written over the integers: with at most 512
      samples the double quotient exceeds the double \<open>0.3\<close> exactly when
      \<open>10 * nonPrintable > 3 * sampleSize\<close>\<close>
  "isBinary buffer filePath =
     (let ext = toLowerCase (extname filePath) in
      if ext \<in> set knownTextExts then False
      else if ext \<in> set knownBinaryExts then True
      else if magicBytes buffer then True
      else
        let sampleSize = min (length buffer) BINARY_DETECTION_SAMPLE in
        if sampleSize = 0 then False
        else
          let nonPrintable = length (filter nonPrintableByte (take sampleSize buffer))
          in 3 * sampleSize < 10 * nonPrintable)"

section \<open>The summary and tag extractor\<close>

definition nonBlankLines :: "string \<Rightarrow> string list" where
  \<comment> \<open>\<open>content.split('\n').filter(l => l.trim())\<close>\<close>
  "nonBlankLines content = filter (\<lambda>l. trim l \<noteq> []) (str_split NL content)"

definition stripHeading :: "string \<Rightarrow> string" where
  \<comment> \<open>\<open>heading.replace(/^#+\s*/, '')\<close>: no match, and no change, unless a \<open>#\<close> is in
      front\<close>
  "stripHeading l =
     (case l of
        [] \<Rightarrow> []
      | c # _ \<Rightarrow>
          if c = CHR ''#'' then dropWhile isWhiteSpace (dropWhile (\<lambda>c. c = CHR ''#'') l)
          else l)"

definition stripCommentMarker :: "string \<Rightarrow> string" where
  \<comment> \<open>\<open>comment.replace(/^[\/\/#]+\s*/, '')\<close>: the class holds \<open>/\<close> and \<open>#\<close>; the
      pattern is anchored at the first character of the line as it was found, not of the
      trimmed line\<close>
  "stripCommentMarker l =
     (case l of
        [] \<Rightarrow> []
      | c # _ \<Rightarrow>
          if c = CHR ''/'' \<or> c = CHR ''#''
          then dropWhile isWhiteSpace (dropWhile (\<lambda>c. c = CHR ''/'' \<or> c = CHR ''#'') l)
          else l)"

definition isCommentLine :: "string \<Rightarrow> bool" where
  \<comment> \<open>\<open>l.trim().startsWith('//') || l.trim().startsWith('#')\<close>\<close>
  "isCommentLine l = (startsWith (trim l) ''//'' \<or> startsWith (trim l) ''#'')"

definition sourceExts :: "string list" where
  "sourceExts = [''.js'', ''.ts'', ''.py'', ''.java'', ''.cs'', ''.go'']"

definition generateSummary :: "string \<Rightarrow> string \<Rightarrow> string" where
  "generateSummary content filePath =
     (let ext = extname filePath in
      if content = [] then ext @ '' file''
      else if ext = ''.md'' then
        (let lines = nonBlankLines content in
         case find (\<lambda>l. startsWith l ''#'') lines of
           Some heading \<Rightarrow> take 80 (stripHeading heading)
         | None \<Rightarrow>
             (case lines of
                [] \<Rightarrow> ''Empty markdown file''
              | l # _ \<Rightarrow> or_else (take 80 l) ''Empty markdown file''))
      else if ext \<in> set sourceExts then
        (let lines = nonBlankLines content in
         case find isCommentLine lines of
           Some comment \<Rightarrow> take 80 (stripCommentMarker comment)
         | None \<Rightarrow> drop 1 ext @ '' source file'')
      else
        (case find (\<lambda>l. trim l \<noteq> []) (str_split NL content) of
           Some firstLine \<Rightarrow> or_else (take 80 firstLine) (basename filePath)
         | None \<Rightarrow> basename filePath))"

definition codeExts :: "string list" where
  "codeExts = [''js'', ''ts'', ''py'', ''java'', ''cs'', ''go'', ''rb'', ''php'', ''cpp'', ''c'', ''rs'']"

definition docExts :: "string list" where
  "docExts = [''md'', ''txt'', ''rst'', ''adoc'']"

definition configExts :: "string list" where
  "configExts = [''json'', ''yaml'', ''yml'', ''toml'', ''ini'', ''env'']"

definition generateTags :: "string \<Rightarrow> string \<Rightarrow> string list" where
  "generateTags content filePath =
     (let ext = drop 1 (extname filePath);
          t1 = (if ext \<noteq> [] then [ext] else []);
          t2 = (if ext \<in> set codeExts then [''code'']
                else if ext \<in> set docExts then [''docs'']
                else if ext \<in> set configExts then [''config'']
                else []);
          lower = toLowerCase content;
          t3 = (if ext = ''md'' \<and> content \<noteq> [] then
                  (if str_includes lower ''todo'' \<or> str_includes lower ''task'' then [''tasks''] else []) @
                  (if str_includes lower ''api'' \<or> str_includes lower ''endpoint'' then [''api''] else []) @
                  (if str_includes lower ''schema'' \<or> str_includes lower ''database'' then [''data''] else []) @
                  (if str_includes lower ''architecture'' \<or> str_includes lower ''design''
                   then [''architecture''] else [])
                else [])
      in take 3 (t1 @ t2 @ t3))"

section \<open>The ignore-pattern engine\<close>

text \<open>
  The regular expressions that \<open>globToRegex\<close> builds and the two literals of
  \<open>loadIgnorePatterns\<close> use literal characters, \<open>.\<close>, \<open>.*\<close>, \<open>^\<close>, \<open>$\<close>, a
  character class and a two-way alternation. \<open>rmatch r s i\<close> lists the positions where
  a match of \<open>r\<close> that starts at position \<open>i\<close> of \<open>s\<close> can end; \<open>test\<close> is
  \<open>RegExp.prototype.test\<close> without flags: a match may start anywhere.
\<close>

datatype regex =
  Chr char
  | Dot
  | Bol
  | Eol
  | Cls "char list"
  | Alt regex regex
  | Star regex
  | Seq regex regex
  | Empty

definition isLineTerminator :: "char \<Rightarrow> bool" where
  "isLineTerminator c = (c = CHR 0x0A \<or> c = CHR 0x0D)"

fun iterate :: "(nat \<Rightarrow> nat list) \<Rightarrow> nat \<Rightarrow> nat \<Rightarrow> nat list" where
  \<comment> \<open>zero or more rounds of \<open>f\<close>, each consuming at least one character\<close>
  "iterate f 0 i = [i]"
| "iterate f (Suc n) i = i # concat (map (iterate f n) (filter (\<lambda>j. i < j) (f i)))"

fun rmatch :: "regex \<Rightarrow> string \<Rightarrow> nat \<Rightarrow> nat list" where
  "rmatch (Chr c) s i = (if i < length s \<and> s ! i = c then [Suc i] else [])"
| "rmatch Dot s i = (if i < length s \<and> \<not> isLineTerminator (s ! i) then [Suc i] else [])"
| "rmatch Bol s i = (if i = 0 then [i] else [])"
| "rmatch Eol s i = (if i = length s then [i] else [])"
| "rmatch (Cls cs) s i = (if i < length s \<and> s ! i \<in> set cs then [Suc i] else [])"
| "rmatch (Alt a b) s i = rmatch a s i @ rmatch b s i"
| "rmatch (Star a) s i = iterate (\<lambda>j. rmatch a s j) (length s - i) i"
| "rmatch (Seq a b) s i = concat (map (\<lambda>j. rmatch b s j) (rmatch a s i))"
| "rmatch Empty s i = [i]"

definition test :: "regex \<Rightarrow> string \<Rightarrow> bool" where
  "test r s = list_ex (\<lambda>i. rmatch r s i \<noteq> []) [0..<Suc (length s)]"

definition seqs :: "regex list \<Rightarrow> regex" where
  "seqs rs = foldr Seq rs Empty"

definition BACKSLASH :: char where
  "BACKSLASH = CHR 0x5C"

definition escaped :: "char list" where
  \<comment> \<open>the class \<open>[.+^${}()|[\]\\]\<close> of the first \<open>replace\<close>\<close>
  "escaped = ''.+^${}()|[]'' @ [BACKSLASH]"

definition globChar :: "char \<Rightarrow> regex" where
  \<comment> \<open>the three \<open>replace\<close> calls act on each character of the pattern by itself: an
      escaped character stands for itself, \<open>*\<close> becomes \<open>.*\<close>, \<open>?\<close> becomes \<open>.\<close>, and
      every other character is no metacharacter\<close>
  "globChar c =
     (if c \<in> set escaped then Chr c
      else if c = CHR ''*'' then Star Dot
      else if c = CHR ''?'' then Dot
      else Chr c)"

definition sepClass :: regex where
  \<comment> \<open>\<open>[/\\]\<close>\<close>
  "sepClass = Cls [CHR ''/'', BACKSLASH]"

definition globToRegex :: "string \<Rightarrow> regex" where
  "globToRegex pattern0 =
     (let isDirectoryOnly = endsWith pattern0 ''/'';
          pattern = (if isDirectoryOnly then butlast pattern0 else pattern0);
          regexPattern = map globChar pattern;
          anchored =
            (if \<not> startsWith pattern ''/'' then Alt Bol sepClass # regexPattern
             else Bol # drop 1 regexPattern);
          closed = (if isDirectoryOnly then anchored @ [Alt sepClass Eol] else anchored)
      in seqs closed)"

definition parseIgnoreFile :: "string option \<Rightarrow> regex list" where
  \<comment> \<open>the argument is the content of the file, \<open>None\<close> when reading it fails\<close>
  "parseIgnoreFile file =
     (case file of
        None \<Rightarrow> []
      | Some content \<Rightarrow>
          map globToRegex
            (filter (\<lambda>line. line \<noteq> [] \<and> \<not> startsWith line ''#'')
               (map trim (str_split NL content))))"

definition alwaysIgnored :: "regex list" where
  \<comment> \<open>\<open>/(^|[\/\\])_timepon\.yaml/\<close> and \<open>/(^|[\/\\])_timepon\.yaml\.backup\./\<close>\<close>
  "alwaysIgnored =
     [seqs (Alt Bol sepClass # map Chr ''_timepon.yaml''),
      seqs (Alt Bol sepClass # map Chr ''_timepon.yaml.backup.'')]"

definition loadIgnorePatterns :: "string option \<Rightarrow> string option \<Rightarrow> regex list" where
  \<comment> \<open>the arguments are the contents of \<open>.tponignore\<close> and of \<open>.gitignore\<close>\<close>
  "loadIgnorePatterns tponignore gitignore =
     parseIgnoreFile tponignore @ parseIgnoreFile gitignore @ alwaysIgnored"

definition ignored :: "regex list \<Rightarrow> string \<Rightarrow> bool" where
  \<comment> \<open>the watcher's \<open>ignored\<close> option: a path is left out when any pattern matches it\<close>
  "ignored patterns path = list_ex (\<lambda>r. test r path) patterns"

section \<open>The metadata index and the events that change it\<close>

text \<open>
  \<open>created\<close> is the instant of \<open>stats.birthtime.toISOString()\<close>, in milliseconds
  since the epoch (the ISO string has exactly this precision). The index
  \<open>metadata.files\<close> is an object keyed by path: an association list in insertion
  order, where assigning to a present key replaces its value in place and assigning to
  an absent key appends.
\<close>

record FileRecord =
  created :: int
  summary :: string
  tags :: "string list"
  stale :: bool
  staleReason :: "string option"

record File =
  stat_birthtime :: int
  stat_size :: nat
  readFile :: "byte list option"

text \<open>
  The file system as an event sees it: \<open>fs.stat\<close> of a path fails with a message
  (\<open>Inl\<close>) or gives the file; \<open>readFile\<close> of a file is \<open>None\<close> when reading fails.
\<close>

type_synonym filesystem = "string \<Rightarrow> string + File"

record Server =
  files :: "(string \<times> FileRecord) list"
  isInitializing :: bool
  saveRetryCount :: nat

definition toString_utf8 :: "byte list \<Rightarrow> string" where
  \<comment> \<open>\<open>buffer.toString('utf-8')\<close> of a buffer of bytes below \<open>0x80\<close>, each of them
      one code unit. (A byte from \<open>0x80\<close> on is taken here as the code unit of the same
      number, where the source decodes the multi-byte sequences of UTF-8.)\<close>
  "toString_utf8 buffer = map (\<lambda>b. char_of (unat b)) buffer"

definition readFileContent :: "File \<Rightarrow> string \<Rightarrow> string" where
  "readFileContent f filePath =
     (if MAX_FILE_SIZE < stat_size f then []
      else case readFile f of
        None \<Rightarrow> []
      | Some buffer \<Rightarrow> if isBinary buffer filePath then [] else toString_utf8 buffer)"

datatype save_result = Saved | RetryScheduled nat | Exhausted

definition saveMetadata :: "bool \<Rightarrow> Server \<Rightarrow> Server \<times> save_result" where
  \<comment> \<open>\<open>writeOk\<close>: the \<open>try\<close> block (building the document and \<open>fs.writeFile\<close>) does
      not throw. \<open>RetryScheduled d\<close> is the \<open>setTimeout\<close> of \<open>d\<close> milliseconds, after
      which \<open>saveMetadata\<close> runs again; the call itself returns at once.\<close>
  "saveMetadata writeOk s =
     (if writeOk then (s\<lparr>saveRetryCount := 0\<rparr>, Saved)
      else if saveRetryCount s < SAVE_RETRY_MAX then
        (let s' = s\<lparr>saveRetryCount := saveRetryCount s + 1\<rparr>;
             delayMs = 2 ^ saveRetryCount s' * SAVE_RETRY_BASE_DELAY
         in (s', RetryScheduled delayMs))
      else (s\<lparr>saveRetryCount := 0\<rparr>, Exhausted))"

fun saveWithRetries :: "bool list \<Rightarrow> Server \<Rightarrow> Server \<times> save_result list" where
  \<comment> \<open>one call of \<open>saveMetadata\<close> and the timer callbacks it leads to, with the outcomes
      of the successive writes; the list of results is the trace of the chain\<close>
  "saveWithRetries [] s = (s, [])"
| "saveWithRetries (writeOk # later) s =
     (case saveMetadata writeOk s of
        (s', RetryScheduled d) \<Rightarrow>
          (case saveWithRetries later s' of (s'', rs) \<Rightarrow> (s'', RetryScheduled d # rs))
      | (s', r) \<Rightarrow> (s', [r]))"

definition handleFileCreation ::
  "filesystem \<Rightarrow> bool \<Rightarrow> Server \<Rightarrow> string \<Rightarrow> Server \<times> save_result list" where
  \<comment> \<open>the second component lists the calls of \<open>saveMetadata\<close> the handler makes\<close>
  "handleFileCreation fs writeOk s filePath =
     (if map_of (files s) filePath \<noteq> None then (s, [])
      else case fs filePath of
        Inl message \<Rightarrow> (s, [])
      | Inr f \<Rightarrow>
          (let content = readFileContent f filePath;
               metadata = \<lparr>created = stat_birthtime f,
                           summary = generateSummary content filePath,
                           tags = generateTags content filePath,
                           stale = False, staleReason = None\<rparr>;
               s' = s\<lparr>files := AList.update filePath metadata (files s)\<rparr>
           in if \<not> isInitializing s' then
                (case saveMetadata writeOk s' of (s'', r) \<Rightarrow> (s'', [r]))
              else (s', [])))"

record Counts =
  updatedCount :: nat
  errorCount :: nat
  staleCount :: nat

definition refreshFile :: "filesystem \<Rightarrow> string \<Rightarrow> Server \<times> Counts \<Rightarrow> Server \<times> Counts" where
  \<comment> \<open>the paths come from the keys of the index and no event removes a key, so the
      lookup of the record finds it\<close>
  "refreshFile fs filePath sc =
     (case sc of (s, c) \<Rightarrow>
        (case fs filePath of
           Inr f \<Rightarrow>
             (case map_of (files s) filePath of
                None \<Rightarrow> (s, c)
              | Some old \<Rightarrow>
                  (let content = readFileContent f filePath;
                       metadata = \<lparr>created = created old,
                                   summary = generateSummary content filePath,
                                   tags = generateTags content filePath,
                                   stale = False, staleReason = None\<rparr>
                   in (s\<lparr>files := AList.update filePath metadata (files s)\<rparr>,
                       c\<lparr>updatedCount := updatedCount c + 1\<rparr>)))
         | Inl message \<Rightarrow>
             (s\<lparr>files :=
                  AList.map_entry filePath
                    (\<lambda>r. r\<lparr>stale := True, staleReason := Some message\<rparr>) (files s)\<rparr>,
              c\<lparr>errorCount := errorCount c + 1, staleCount := staleCount c + 1\<rparr>)))"

definition BATCH_SIZE :: nat where
  "BATCH_SIZE = 10"

function batches :: "nat \<Rightarrow> 'a list \<Rightarrow> 'a list list" where
  \<comment> \<open>\<open>existingFiles.slice(i, i + BATCH_SIZE)\<close> for \<open>i = 0, BATCH_SIZE, ...\<close>\<close>
  "batches n xs = (if n = 0 \<or> xs = [] then [] else take n xs # batches n (drop n xs))"
  by pat_completeness auto
termination
  by (relation "measure (\<lambda>(n, xs). length xs)") auto

declare batches.simps [simp del]

definition refreshMetadata ::
  "filesystem \<Rightarrow> bool \<Rightarrow> Server \<Rightarrow> Server \<times> Counts \<times> save_result" where
  \<comment> \<open>the members of a batch run concurrently; each touches only the record of its own
      path, so their effect is that of running them one after the other\<close>
  "refreshMetadata fs writeOk s =
     (let existingFiles = map fst (files s);
          start = (s, \<lparr>updatedCount = 0, errorCount = 0, staleCount = 0\<rparr>)
      in case fold (\<lambda>batch sc. fold (refreshFile fs) batch sc)
                (batches BATCH_SIZE existingFiles) start of
           (s', c) \<Rightarrow> (case saveMetadata writeOk s' of (s'', r) \<Rightarrow> (s'', c, r)))"

datatype event =
  FileAdded string
  | WatcherReady
  | RefreshRequested
  | RetryTimerFired

definition step :: "filesystem \<times> bool \<times> event \<Rightarrow> Server \<Rightarrow> Server" where
  \<comment> \<open>one event of the running server, with the file system and the outcome of the
      write it meets\<close>
  "step w s =
     (case w of (fs, writeOk, ev) \<Rightarrow>
        (case ev of
           FileAdded filePath \<Rightarrow> fst (handleFileCreation fs writeOk s filePath)
         | WatcherReady \<Rightarrow> fst (saveMetadata writeOk (s\<lparr>isInitializing := False\<rparr>))
         | RefreshRequested \<Rightarrow> fst (refreshMetadata fs writeOk s)
         | RetryTimerFired \<Rightarrow> fst (saveMetadata writeOk s)))"

definition run :: "(filesystem \<times> bool \<times> event) list \<Rightarrow> Server \<Rightarrow> Server" where
  "run ws s = fold step ws s"

section \<open>Relative paths and the order of the listings\<close>

fun dropCommon :: "'a list \<Rightarrow> 'a list \<Rightarrow> 'a list \<times> 'a list" where
  "dropCommon (x # xs) (y # ys) = (if x = y then dropCommon xs ys else (x # xs, y # ys))"
| "dropCommon xs ys = (xs, ys)"

fun join :: "string \<Rightarrow> string list \<Rightarrow> string" where
  "join sep [] = []"
| "join sep [x] = x"
| "join sep (x # y # ys) = x @ sep @ join sep (y # ys)"

definition segments :: "string \<Rightarrow> string list" where
  "segments p = filter (\<lambda>seg. seg \<noteq> []) (str_split CHR ''/'' p)"

definition relative :: "string \<Rightarrow> string \<Rightarrow> string" where
  \<comment> \<open>\<open>path.relative(from, to)\<close>, POSIX flavour, on absolute paths with no \<open>.\<close> or
      \<open>..\<close> component\<close>
  "relative from to =
     (case dropCommon (segments from) (segments to) of
        (up, down) \<Rightarrow> join ''/'' (replicate (length up) ''..'' @ down))"

definition newestFirst :: "(string \<times> FileRecord) list \<Rightarrow> (string \<times> FileRecord) list" where
  \<comment> \<open>\<open>.sort(([, a], [, b]) => new Date(b.created) - new Date(a.created))\<close>: stable\<close>
  "newestFirst entries = sort_key (\<lambda>(filePath, metadata). - created metadata) entries"

section \<open>Dates as the document prints them\<close>

text \<open>
  An instant is a number of milliseconds since the epoch. The \<open>Date\<close> and \<open>Intl\<close>
  calls of the serializer are modelled for the proleptic Gregorian calendar, with the
  English names of the \<open>en-GB\<close> locale; the local time zone is a parameter, the offset
  in milliseconds that local time has at an instant.
\<close>

definition digit :: "nat \<Rightarrow> char" where
  "digit n = char_of (48 + n)"

function show_nat :: "nat \<Rightarrow> string" where
  "show_nat n = (if n < 10 then [digit n] else show_nat (n div 10) @ [digit (n mod 10)])"
  by pat_completeness auto
termination
  by (relation "measure id") auto

declare show_nat.simps [simp del]

definition show_int :: "int \<Rightarrow> string" where
  "show_int i = (if i < 0 then CHR ''-'' # show_nat (nat (- i)) else show_nat (nat i))"

definition pad :: "nat \<Rightarrow> nat \<Rightarrow> string" where
  \<comment> \<open>\<open>String(n).padStart(w, '0')\<close>\<close>
  "pad w n = replicate (w - length (show_nat n)) CHR ''0'' @ show_nat n"

definition civil :: "int \<Rightarrow> int \<times> nat \<times> nat" where
  \<comment> \<open>year, month (1 to 12) and day of the month of a day number (day 0 is 1 January 1970)\<close>
  "civil dayNumber =
     (let z = dayNumber + 719468;
          era = z div 146097;
          doe = z mod 146097;
          yoe = (doe - doe div 1460 + doe div 36524 - doe div 146096) div 365;
          doy = doe - (365 * yoe + yoe div 4 - yoe div 100);
          mp = (5 * doy + 2) div 153;
          d = doy - (153 * mp + 2) div 5 + 1;
          m = (if mp < 10 then mp + 3 else mp - 9);
          y = yoe + era * 400
      in (if m \<le> 2 then y + 1 else y, nat m, nat d))"

definition dayNumber :: "int \<Rightarrow> int" where
  "dayNumber t = t div 86400000"

definition weekDay :: "int \<Rightarrow> nat" where
  \<comment> \<open>0 is Sunday; 1 January 1970 was a Thursday\<close>
  "weekDay t = nat ((dayNumber t + 4) mod 7)"

definition hours :: "int \<Rightarrow> nat" where
  "hours t = nat (t mod 86400000 div 3600000)"

definition minutes :: "int \<Rightarrow> nat" where
  "minutes t = nat (t mod 3600000 div 60000)"

definition seconds :: "int \<Rightarrow> nat" where
  "seconds t = nat (t mod 60000 div 1000)"

definition milliseconds :: "int \<Rightarrow> nat" where
  "milliseconds t = nat (t mod 1000)"

definition monthLong :: "nat \<Rightarrow> string" where
  "monthLong m =
     [''January'', ''February'', ''March'', ''April'', ''May'', ''June'', ''July'',
      ''August'', ''September'', ''October'', ''November'', ''December''] ! (m - 1)"

definition monthShort :: "nat \<Rightarrow> string" where
  "monthShort m =
     [''Jan'', ''Feb'', ''Mar'', ''Apr'', ''May'', ''Jun'', ''Jul'',
      ''Aug'', ''Sept'', ''Oct'', ''Nov'', ''Dec''] ! (m - 1)"

definition weekdayLong :: "nat \<Rightarrow> string" where
  "weekdayLong d =
     [''Sunday'', ''Monday'', ''Tuesday'', ''Wednesday'', ''Thursday'', ''Friday'',
      ''Saturday''] ! d"

record Env =
  workspaceRoot :: string
  now :: int
  localOffset :: "int \<Rightarrow> int"
  localeCompare :: "string \<Rightarrow> string \<Rightarrow> bool"

text \<open>
  \<open>now\<close> is the reading of the clock during one save (the source reads the clock
  several times within one save; the model takes one reading). \<open>localeCompare e a b\<close>
  stands for \<open>a.localeCompare(b) <= 0\<close>, the collation of the runtime.
\<close>

definition localTime :: "Env \<Rightarrow> int \<Rightarrow> int" where
  "localTime e t = t + localOffset e t"

definition toISOString :: "int \<Rightarrow> string" where
  \<comment> \<open>for the years 0 to 9999\<close>
  "toISOString t =
     (case civil (dayNumber t) of
        (y, m, d) \<Rightarrow>
          pad 4 (nat y) @ ''-'' @ pad 2 m @ ''-'' @ pad 2 d @ ''T'' @ pad 2 (hours t) @ '':'' @
          pad 2 (minutes t) @ '':'' @ pad 2 (seconds t) @ ''.'' @ pad 3 (milliseconds t) @ ''Z'')"

definition dateLong :: "Env \<Rightarrow> int \<Rightarrow> string" where
  \<comment> \<open>\<open>toLocaleDateString('en-GB', {weekday: 'long', year: 'numeric', month: 'long',
      day: 'numeric'})\<close>\<close>
  "dateLong e t =
     (case civil (dayNumber (localTime e t)) of
        (y, m, d) \<Rightarrow>
          weekdayLong (weekDay (localTime e t)) @ '', '' @ show_nat d @ '' '' @ monthLong m @
          '' '' @ show_int y)"

definition dateShort :: "Env \<Rightarrow> int \<Rightarrow> string" where
  \<comment> \<open>\<open>toLocaleDateString('en-GB', {day: '2-digit', month: 'short', year: 'numeric'})\<close>\<close>
  "dateShort e t =
     (case civil (dayNumber (localTime e t)) of
        (y, m, d) \<Rightarrow> pad 2 d @ '' '' @ monthShort m @ '' '' @ show_int y)"

definition timeHM :: "Env \<Rightarrow> int \<Rightarrow> string" where
  \<comment> \<open>\<open>toLocaleTimeString('en-GB', {hour: '2-digit', minute: '2-digit'})\<close>\<close>
  "timeHM e t = pad 2 (hours (localTime e t)) @ '':'' @ pad 2 (minutes (localTime e t))"

definition timeHMS :: "Env \<Rightarrow> int \<Rightarrow> string" where
  \<comment> \<open>the same with \<open>second: '2-digit'\<close>\<close>
  "timeHMS e t = timeHM e t @ '':'' @ pad 2 (seconds (localTime e t))"

definition getRelativeTime :: "Env \<Rightarrow> int option \<Rightarrow> string" where
  \<comment> \<open>\<open>None\<close> is an invalid date: every comparison with \<open>NaN\<close> fails, the last branch
      prints it\<close>
  "getRelativeTime e isoDate =
     (case isoDate of
        None \<Rightarrow> ''NaNw ago''
      | Some date \<Rightarrow>
          (let diffMs = now e - date;
               diffMins = diffMs div 60000;
               diffHours = diffMs div 3600000;
               diffDays = diffMs div 86400000
           in if diffMins < 1 then ''just now''
              else if diffMins < 60 then show_int diffMins @ ''m ago''
              else if diffHours < 24 then show_int diffHours @ ''h ago''
              else if diffDays < 7 then show_int diffDays @ ''d ago''
              else show_int (diffDays div 7) @ ''w ago''))"

definition formatDateTime :: "Env \<Rightarrow> int option \<Rightarrow> string" where
  "formatDateTime e isoDate =
     (case isoDate of
        None \<Rightarrow> ''Invalid Date Invalid Date >>('' @ getRelativeTime e isoDate @ '')<<''
      | Some date \<Rightarrow>
          dateShort e date @ '' '' @ timeHM e date @ '' >>('' @ getRelativeTime e isoDate @
          '')<<'')"

section \<open>The tree serializer\<close>

text \<open>
  The nested object that \<open>buildFileTree\<close> makes: a file is the object holding
  \<open>created\<close>, \<open>summary\<close> and \<open>tags\<close>, a directory is the object of its children, an
  association list of its own properties in the order of their creation.
\<close>

datatype node =
  FileNode int string "string list"
  | DirNode "(string \<times> node) list"

record Tree =
  workspace :: string
  lastUpdated :: string
  totalFiles :: nat
  treeFiles :: "(string \<times> node) list"

definition inheritedNames :: "string list" where
  \<comment> \<open>the properties that an object made by \<open>{}\<close> inherits from \<open>Object.prototype\<close>;
      each of them is a function or an object, and so truthy\<close>
  "inheritedNames =
     [''constructor'', ''__defineGetter__'', ''__defineSetter__'', ''hasOwnProperty'',
      ''__lookupGetter__'', ''__lookupSetter__'', ''isPrototypeOf'', ''propertyIsEnumerable'',
      ''toString'', ''valueOf'', ''__proto__'', ''toLocaleString'']"

fun insertPath ::
  "string list \<Rightarrow> node \<Rightarrow> (string \<times> node) list \<Rightarrow> (string \<times> node) list option" where
  \<comment> \<open>the inner loop of \<open>buildFileTree\<close> over the parts of one path. \<open>current[part]\<close>
      finds an own property, or else an inherited one. \<open>None\<close>: the walk leaves the tree,
      and the model does not follow it. That is so when the path runs through an entry
      that is a file (the source goes on inside the file's own object); when a directory
      part that is no own property names an inherited one (the source takes the inherited
      value for the directory and goes on inside it, so that the tree does not get the
      file); and when the last part is \<open>__proto__\<close> (the assignment replaces the
      prototype of the directory and makes no property).\<close>
  "insertPath [] leaf current = Some current"
| "insertPath [part] leaf current =
     (if part = ''__proto__'' then None else Some (AList.update part leaf current))"
| "insertPath (part # rest) leaf current =
     (case map_of current part of
        None \<Rightarrow>
          if part \<in> set inheritedNames then None
          else map_option (\<lambda>sub. AList.update part (DirNode sub) current)
                 (insertPath rest leaf [])
      | Some (DirNode sub0) \<Rightarrow>
          map_option (\<lambda>sub. AList.update part (DirNode sub) current) (insertPath rest leaf sub0)
      | Some (FileNode c su ts) \<Rightarrow> None)"

definition leafOf :: "FileRecord \<Rightarrow> node" where
  "leafOf metadata = FileNode (created metadata) (summary metadata) (tags metadata)"

definition parts :: "Env \<Rightarrow> string \<Rightarrow> string list" where
  \<comment> \<open>\<open>path.relative(this.workspaceRoot, filePath).split(path.sep)\<close>\<close>
  "parts e filePath = str_split CHR ''/'' (relative (workspaceRoot e) filePath)"

definition insertEntry ::
  "Env \<Rightarrow> string \<times> FileRecord \<Rightarrow> (string \<times> node) list option \<Rightarrow>
   (string \<times> node) list option" where
  \<comment> \<open>the body of the loop of \<open>buildFileTree\<close> over the entries of the index\<close>
  "insertEntry e entry current =
     (case current of
        None \<Rightarrow> None
      | Some c \<Rightarrow> insertPath (parts e (fst entry)) (leafOf (snd entry)) c)"

definition buildFileTree :: "Env \<Rightarrow> (string \<times> FileRecord) list \<Rightarrow> Tree option" where
  "buildFileTree e filesObj =
     map_option
       (\<lambda>fs. \<lparr>workspace = workspaceRoot e, lastUpdated = toISOString (now e),
              totalFiles = length filesObj, treeFiles = fs\<rparr>)
       (fold (insertEntry e) (newestFirst filesObj) (Some []))"

definition isFile :: "node \<Rightarrow> bool" where
  \<comment> \<open>\<open>value && typeof value === 'object' && 'created' in value\<close>: true of a file, and
      of a directory that has a child named \<open>created\<close>\<close>
  "isFile value =
     (case value of
        FileNode c su ts \<Rightarrow> True
      | DirNode children \<Rightarrow> map_of children ''created'' \<noteq> None)"

definition jsDate :: "node \<Rightarrow> int option" where
  \<comment> \<open>\<open>new Date(value.created)\<close>: invalid when \<open>value.created\<close> is an object\<close>
  "jsDate value = (case value of FileNode c su ts \<Rightarrow> Some c | DirNode children \<Rightarrow> None)"

definition summaryText :: "node \<Rightarrow> string" where
  \<comment> \<open>\<open>${value.summary}\<close>\<close>
  "summaryText value =
     (case value of
        FileNode c su ts \<Rightarrow> su
      | DirNode children \<Rightarrow>
          (case map_of children ''summary'' of
             None \<Rightarrow> ''undefined''
           | Some child \<Rightarrow> ''[object Object]''))"

definition tagsText :: "node \<Rightarrow> string" where
  \<comment> \<open>\<open>[${value.tags.join(', ')}]\<close> for a non-empty array, \<open>[]\<close> otherwise\<close>
  "tagsText value =
     (case value of
        FileNode c su ts \<Rightarrow> if ts \<noteq> [] then ''['' @ join '', '' ts @ '']'' else ''[]''
      | DirNode children \<Rightarrow> ''[]'')"

definition icon :: "nat list \<Rightarrow> string" where
  \<comment> \<open>an icon literal of \<open>index.js\<close>, by the bytes that the literal has in the UTF-8
      source file and in the UTF-8 document\<close>
  "icon bytes = map char_of bytes"

definition iconMap :: "(string \<times> string) list" where
  "iconMap =
     [(''.md'', icon [0xEF, 0xA3, 0xBF, 0xC3, 0xBC, 0xC3, 0xAC, 0xC3, 0x91]),
      (''.txt'', icon [0xEF, 0xA3, 0xBF, 0xC3, 0xBC, 0xC3, 0xAC, 0xC3, 0xB9]),
      (''.js'', icon [0xE2, 0x80, 0x9A, 0xC3, 0xB6, 0xC2, 0xB0]),
      (''.ts'', icon [0xEF, 0xA3, 0xBF, 0xC3, 0xBC, 0xC3, 0xAE, 0xE2, 0x88, 0x91]),
      (''.py'', icon [0xEF, 0xA3, 0xBF, 0xC3, 0xBC, 0xC3, 0xAA, 0xC3, 0xA7]),
      (''.json'', icon [0xEF, 0xA3, 0xBF, 0xC3, 0xBC, 0xC3, 0xAC, 0xC3, 0xA3]),
      (''.yaml'',
       icon [0xE2, 0x80, 0x9A, 0xC3, 0xB6, 0xC3, 0xB4, 0xC3, 0x94, 0xE2, 0x88, 0x8F, 0xC3, 0xA8]),
      (''.yml'',
       icon [0xE2, 0x80, 0x9A, 0xC3, 0xB6, 0xC3, 0xB4, 0xC3, 0x94, 0xE2, 0x88, 0x8F, 0xC3, 0xA8]),
      (''.html'', icon [0xEF, 0xA3, 0xBF, 0xC3, 0xBC, 0xC3, 0xA5, 0xC3, 0xAA]),
      (''.css'', icon [0xEF, 0xA3, 0xBF, 0xC3, 0xBC, 0xC3, 0xA9, 0xC2, 0xAE]),
      (''.sh'', icon [0xEF, 0xA3, 0xBF, 0xC3, 0xBC, 0xC3, 0xAE, 0xC3, 0x9F]),
      (''.ps1'', icon [0xEF, 0xA3, 0xBF, 0xC3, 0xBC, 0xC3, 0xAE, 0xC3, 0x9F]),
      (''.bat'', icon [0xEF, 0xA3, 0xBF, 0xC3, 0xBC, 0xC3, 0xAE, 0xC3, 0x9F])]"

definition getFileIcon :: "string \<Rightarrow> string" where
  "getFileIcon filename =
     (case map_of iconMap (toLowerCase (extname filename)) of
        Some i \<Rightarrow> i
      | None \<Rightarrow> icon [0xEF, 0xA3, 0xBF, 0xC3, 0xBC, 0xC3, 0xAC, 0xC3, 0x91])"

definition folderIcon :: string where
  "folderIcon = icon [0xEF, 0xA3, 0xBF, 0xC3, 0xBC, 0xC3, 0xAC, 0xC3, 0x85]"

definition rootIcon :: string where
  "rootIcon = icon [0xEF, 0xA3, 0xBF, 0xC3, 0xBC, 0xC3, 0xA8, 0xE2, 0x80, 0xA0]"

fun insertBy :: "('a \<Rightarrow> 'a \<Rightarrow> bool) \<Rightarrow> 'a \<Rightarrow> 'a list \<Rightarrow> 'a list" where
  "insertBy le x [] = [x]"
| "insertBy le x (y # ys) = (if le x y then x # y # ys else y # insertBy le x ys)"

definition sortBy :: "('a \<Rightarrow> 'a \<Rightarrow> bool) \<Rightarrow> 'a list \<Rightarrow> 'a list" where
  \<comment> \<open>\<open>xs.sort(cmp)\<close> for a comparison with \<open>le a b\<close> when \<open>cmp(a, b) <= 0\<close>: stable\<close>
  "sortBy le xs = foldr (insertBy le) xs []"

definition newerFirst :: "string \<times> node \<Rightarrow> string \<times> node \<Rightarrow> bool" where
  \<comment> \<open>\<open>new Date(b.created) - new Date(a.created) <= 0\<close>; a difference with an invalid
      date is \<open>NaN\<close>, which \<open>sort\<close> reads as 0\<close>
  "newerFirst a b =
     (case (jsDate (snd a), jsDate (snd b)) of
        (Some x, Some y) \<Rightarrow> y \<le> x
      | _ \<Rightarrow> True)"

definition isDigit :: "char \<Rightarrow> bool" where
  "isDigit c = (48 \<le> (of_char c :: nat) \<and> (of_char c :: nat) \<le> 57)"

definition toIndex :: "string \<Rightarrow> nat" where
  \<comment> \<open>the number that a string of digits writes\<close>
  "toIndex key = foldl (\<lambda>n c. 10 * n + ((of_char c :: nat) - 48)) 0 key"

definition isArrayIndex :: "string \<Rightarrow> bool" where
  \<comment> \<open>a property name that is an array index: the canonical decimal form of an integer
      from 0 to \<open>2^32 - 2\<close>\<close>
  "isArrayIndex key =
     (key \<noteq> [] \<and> list_all isDigit key \<and> (key = ''0'' \<or> hd key \<noteq> CHR ''0'') \<and>
      toIndex key < 2 ^ 32 - 1)"

definition objectEntries :: "(string \<times> 'a) list \<Rightarrow> (string \<times> 'a) list" where
  \<comment> \<open>\<open>Object.entries(obj)\<close>: the array indices in ascending order, then the other
      names in the order of their creation\<close>
  "objectEntries obj =
     sort_key (\<lambda>kv. toIndex (fst kv)) (filter (\<lambda>kv. isArrayIndex (fst kv)) obj) @
     filter (\<lambda>kv. \<not> isArrayIndex (fst kv)) obj"

definition sortedEntries :: "Env \<Rightarrow> (string \<times> node) list \<Rightarrow> (string \<times> node) list" where
  \<comment> \<open>directories by name first, then files, newest first\<close>
  "sortedEntries e obj =
     sortBy (\<lambda>a b. localeCompare e (fst a) (fst b))
       (filter (\<lambda>kv. \<not> isFile (snd kv)) (objectEntries obj)) @
     sortBy newerFirst (filter (\<lambda>kv. isFile (snd kv)) (objectEntries obj))"

definition fileLines :: "Env \<Rightarrow> string \<Rightarrow> string \<Rightarrow> node \<Rightarrow> string list" where
  \<comment> \<open>the five lines pushed for a file entry\<close>
  "fileLines e indent key value =
     [indent @ ''# '' @ getFileIcon key @ '' '' @ key @ ''  >> '' @
        getRelativeTime e (jsDate value) @ '' <<'',
      indent @ key @ '':'',
      indent @ ''  created: '' @ formatDateTime e (jsDate value),
      indent @ ''  summary: '' @ summaryText value,
      indent @ ''  tags: '' @ tagsText value]"

definition dirLines :: "string \<Rightarrow> string \<Rightarrow> string list" where
  "dirLines indent key = [indent @ ''# === '' @ folderIcon @ '' '' @ key, indent @ key @ '':'']"

definition indentOf :: "nat \<Rightarrow> string" where
  \<comment> \<open>\<open>'  '.repeat(level)\<close>\<close>
  "indentOf level = concat (replicate level ''  '')"

lemma set_insertBy: "set (insertBy le x xs) = insert x (set xs)"
  by (induction xs) auto

lemma set_sortBy: "set (sortBy le xs) = set xs"
  by (induction xs) (simp_all add: sortBy_def set_insertBy)

lemma set_objectEntries: "set (objectEntries obj) = set obj"
  by (auto simp: objectEntries_def)

lemma set_sortedEntries: "set (sortedEntries e obj) = set obj"
  by (auto simp: sortedEntries_def set_sortBy set_objectEntries)

function formatTreeLevel :: "Env \<Rightarrow> (string \<times> node) list \<Rightarrow> nat \<Rightarrow> string list" where
  \<comment> \<open>the lines that \<open>formatTreeLevel(obj, level, lines)\<close> pushes\<close>
  "formatTreeLevel e obj level =
     (let indent = indentOf level;
          entries = sortedEntries e obj
      in concat
           (map (\<lambda>(index, key, value).
                   (if 0 < index then [[]] else []) @
                   (if isFile value then fileLines e indent key value
                    else dirLines indent key @
                      (case value of
                         DirNode children \<Rightarrow> formatTreeLevel e children (level + 1)
                       | FileNode c su ts \<Rightarrow> [])))
              (zip [0..<length entries] entries)))"
  by pat_completeness auto
termination
proof (relation "measure (\<lambda>(e, obj, level). size_list (size_prod (\<lambda>k. 0) size) obj)")
  show "wf (measure (\<lambda>(e, obj, level). size_list (size_prod (\<lambda>k. 0) size) obj))"
    by simp
next
  fix e :: Env and obj :: "(string \<times> node) list" and level :: nat
    and indent entries z index kv key "value" children
  assume "entries = sortedEntries e obj" and "z \<in> set (zip [0..<length entries] entries)"
    and "(index, kv) = z" and "(key, value) = kv" and "value = DirNode children"
  then have "(key, DirNode children) \<in> set obj"
    by (metis set_sortedEntries set_zip_rightD)
  then have "size_prod (\<lambda>k. 0) size (key, DirNode children)
      \<le> size_list (size_prod (\<lambda>k. 0) size) obj"
    by (simp add: size_list_estimation')
  then show "((e, children, level + 1), (e, obj, level))
      \<in> measure (\<lambda>(e, obj, level). size_list (size_prod (\<lambda>k. 0) size) obj)"
    by simp
qed

declare formatTreeLevel.simps [simp del]

definition yamlLines :: "Env \<Rightarrow> Tree \<Rightarrow> string list" where
  \<comment> \<open>the array \<open>lines\<close> of \<open>formatYamlWithSpacing\<close>\<close>
  "yamlLines e tree =
     [''workspace: '' @ workspace tree,
      ''lastUpdated: '' @ [CHR 0x27] @ lastUpdated tree @ [CHR 0x27],
      ''totalFiles: '' @ show_nat (totalFiles tree),
      [],
      ''files:'',
      [],
      ''  # === '' @ rootIcon @ '' Root'',
      ''  Root:''] @
     (if treeFiles tree \<noteq> [] then formatTreeLevel e (treeFiles tree) 2 else [])"

definition formatYamlWithSpacing :: "Env \<Rightarrow> Tree \<Rightarrow> string" where
  "formatYamlWithSpacing e tree = join [NL] (yamlLines e tree)"

definition RULE :: string where
  "RULE = replicate 74 CHR ''=''"

definition header :: "Env \<Rightarrow> nat \<Rightarrow> string" where
  \<comment> \<open>the template \<open>header\<close> of \<open>saveMetadata\<close>, for a count of files\<close>
  "header e fileCount =
     join [NL]
       [''TIMEPON FILE TRACKING'',
        workspaceRoot e,
        RULE,
        ''Last Updated:     '' @ dateLong e (now e) @ '' at '' @ timeHMS e (now e),
        ''Files Tracked:    '' @ show_nat fileCount,
        [],
        ''TIP: Use code folding to collapse folders (click arrows by line numbers)'',
        [],
        ''Ctrl+K Ctrl+0 = fold all | Ctrl+K Ctrl+J = unfold all'',
        RULE,
        [],
        []]"

definition footer :: string where
  "footer = join [NL] [[], RULE, ''End of Timepon tracking data'', RULE, []]"

definition fullContent :: "Env \<Rightarrow> (string \<times> FileRecord) list \<Rightarrow> string option" where
  \<comment> \<open>the text that \<open>saveMetadata\<close> writes: header, tree and footer\<close>
  "fullContent e filesObj =
     map_option
       (\<lambda>treeStructure.
          header e (length filesObj) @ formatYamlWithSpacing e treeStructure @ footer)
       (buildFileTree e filesObj)"

section \<open>The load path\<close>

text \<open>
  \<open>loadMetadata\<close> hands the whole text of the document to the YAML library and keeps
  what the library returns. The library is a parameter: \<open>parse\<close> gives the parsed
  value, or \<open>None\<close> when \<open>YAML.parse\<close> throws.
\<close>

datatype yaml =
  YNull
  | YBool bool
  | YNumber int
  | YString string
  | YSeq "yaml list"
  | YMap "(string \<times> yaml) list"

definition yamlTruthy :: "yaml \<Rightarrow> bool" where
  "yamlTruthy v =
     (case v of
        YNull \<Rightarrow> False
      | YBool b \<Rightarrow> b
      | YNumber n \<Rightarrow> n \<noteq> 0
      | YString t \<Rightarrow> t \<noteq> []
      | YSeq vs \<Rightarrow> True
      | YMap kvs \<Rightarrow> True)"

definition isObject :: "yaml \<Rightarrow> bool" where
  \<comment> \<open>\<open>typeof v === 'object'\<close> of a value that is not \<open>null\<close>\<close>
  "isObject v = (case v of YSeq vs \<Rightarrow> True | YMap kvs \<Rightarrow> True | _ \<Rightarrow> False)"

definition filesOf :: "yaml \<Rightarrow> yaml option" where
  \<comment> \<open>\<open>parsed.files\<close>, \<open>None\<close> for \<open>undefined\<close>\<close>
  "filesOf v = (case v of YMap kvs \<Rightarrow> map_of kvs ''files'' | _ \<Rightarrow> None)"

datatype loaded =
  Loaded yaml
  | StartFresh
  | BackedUpAndReset

definition loadMetadata :: "(string \<Rightarrow> yaml option) \<Rightarrow> string option \<Rightarrow> loaded" where
  \<comment> \<open>the second argument is the text of \<open>_timepon.yaml\<close>, \<open>None\<close> when the file does
      not exist. \<open>Loaded parsed\<close>: \<open>this.metadata = parsed\<close>; \<open>StartFresh\<close>:
      \<open>this.metadata = { files: {} }\<close>; \<open>BackedUpAndReset\<close>: the same after the copy
      of the file to a backup.\<close>
  "loadMetadata parse file =
     (case file of
        None \<Rightarrow> StartFresh
      | Some content \<Rightarrow>
          (case parse content of
             None \<Rightarrow> BackedUpAndReset
           | Some parsed \<Rightarrow>
               if \<not> yamlTruthy parsed \<or> \<not> isObject parsed then BackedUpAndReset
               else
                 (case filesOf parsed of
                    None \<Rightarrow> StartFresh
                  | Some fs \<Rightarrow>
                      if \<not> yamlTruthy fs \<or> \<not> isObject fs then StartFresh
                      else Loaded parsed)))"

definition saveThenLoad ::
  "(string \<Rightarrow> yaml option) \<Rightarrow> Env \<Rightarrow> (string \<times> FileRecord) list \<Rightarrow> loaded option" where
  \<comment> \<open>the round trip: \<open>saveMetadata\<close> writes the document of an index, and
      \<open>loadMetadata\<close> reads that document at the next start of the server. \<open>None\<close>
      where \<open>fullContent\<close> is \<open>None\<close>.\<close>
  "saveThenLoad parse e filesObj =
     map_option (\<lambda>document. loadMetadata parse (Some document)) (fullContent e filesObj)"

section \<open>The query operations\<close>

datatype jsval = Undefined | Number int | String string

definition truthy :: "jsval \<Rightarrow> bool" where
  "truthy v = (case v of Undefined \<Rightarrow> False | Number n \<Rightarrow> n \<noteq> 0 | String t \<Rightarrow> t \<noteq> [])"

datatype error = Error string | TypeError

definition getRecentFiles ::
  "Env \<Rightarrow> Server \<Rightarrow> jsval \<Rightarrow> error + (string \<times> FileRecord) list" where
  \<comment> \<open>\<open>now e\<close> is \<open>Date.now()\<close>; the hours are whole numbers in the model, and the
      cutoff is taken to be a date that \<open>Date\<close> can hold (it is one up to some
      \<open>2.4e9\<close> hours)\<close>
  "getRecentFiles e s hrs =
     (case hrs of
        Number h \<Rightarrow>
          if h \<le> 0 then Inl (Error ''Hours parameter must be a positive number'')
          else
            (let cutoff = now e - h * 60 * 60 * 1000
             in Inr (map (\<lambda>(filePath, metadata). (relative (workspaceRoot e) filePath, metadata))
                       (newestFirst
                          (filter (\<lambda>(filePath, metadata). cutoff < created metadata) (files s)))))
      | _ \<Rightarrow> Inl (Error ''Hours parameter must be a positive number''))"

definition get_recent_files ::
  "Env \<Rightarrow> Server \<Rightarrow> jsval option \<Rightarrow> error + (string \<times> FileRecord) list" where
  \<comment> \<open>the \<open>case 'get_recent_files'\<close> of the tool dispatcher, \<open>args.hours || 24\<close>. The
      argument is \<open>args.hours\<close>, or \<open>None\<close> when the request has no \<open>arguments\<close> at all
      (reading \<open>args.hours\<close> then throws). An \<open>Inl\<close> is the error the dispatcher catches
      and returns as a text payload.\<close>
  "get_recent_files e s args =
     (case args of
        None \<Rightarrow> Inl TypeError
      | Some argsHours \<Rightarrow>
          getRecentFiles e s (if truthy argsHours then argsHours else Number 24))"

section \<open>Observations used by the properties\<close>

fun lookupPath :: "(string \<times> node) list \<Rightarrow> string list \<Rightarrow> node option" where
  \<comment> \<open>the entry that a list of nested keys leads to in a tree\<close>
  "lookupPath current [] = None"
| "lookupPath current [part] = map_of current part"
| "lookupPath current (part # rest) =
     (case map_of current part of
        Some (DirNode sub) \<Rightarrow> lookupPath sub rest
      | _ \<Rightarrow> None)"

fun walkable :: "string list \<Rightarrow> bool" where
  \<comment> \<open>the parts of a path that \<open>buildFileTree\<close> can follow inside the tree: no
      directory part names an inherited property, and the file is not named
      \<open>__proto__\<close>\<close>
  "walkable [] = True"
| "walkable [part] = (part \<noteq> ''__proto__'')"
| "walkable (part # rest) = (part \<notin> set inheritedNames \<and> walkable rest)"

definition represents ::
  "Env \<Rightarrow> (string \<times> node) list \<Rightarrow> (string \<times> FileRecord) set \<Rightarrow> bool" where
  \<comment> \<open>the files of a tree are the records of \<open>D\<close>, each under the parts of its path\<close>
  "represents e current D =
     (\<forall>qs c su ts. lookupPath current qs = Some (FileNode c su ts) \<longleftrightarrow>
        (\<exists>x\<in>D. qs = parts e (fst x) \<and> leafOf (snd x) = FileNode c su ts))"

definition unambiguous :: "Env \<Rightarrow> (string \<times> FileRecord) set \<Rightarrow> bool" where
  \<comment> \<open>no two entries have the same relative path, and none lies below another\<close>
  "unambiguous e D =
     (\<forall>x\<in>D. \<forall>y\<in>D. prefix (parts e (fst x)) (parts e (fst y)) \<longrightarrow> x = y)"

definition onPaths ::
  "Env \<Rightarrow> (string \<times> node) list \<Rightarrow> (string \<times> FileRecord) set \<Rightarrow> bool" where
  \<comment> \<open>every entry of a tree lies on the path of a record of \<open>D\<close>\<close>
  "onPaths e current D =
     (\<forall>qs. lookupPath current qs \<noteq> None \<longrightarrow> (\<exists>x\<in>D. prefix qs (parts e (fst x))))"

fun byCodeUnits :: "string \<Rightarrow> string \<Rightarrow> bool" where
  \<comment> \<open>a collation for the examples: the order of the character codes\<close>
  "byCodeUnits [] b = True"
| "byCodeUnits (x # a) [] = False"
| "byCodeUnits (x # a) (y # b) =
     ((of_char x :: nat) < of_char y \<or> (x = y \<and> byCodeUnits a b))"

definition exampleEnv :: Env where
  \<comment> \<open>a workspace \<open>/w\<close> in the UTC zone, saved 45 seconds after midnight of
      2 January 1970\<close>
  "exampleEnv =
     \<lparr>workspaceRoot = ''/w'', now = 86445000, localOffset = (\<lambda>t. 0),
      localeCompare = byCodeUnits\<rparr>"

definition exampleRecord :: "int \<Rightarrow> FileRecord" where
  "exampleRecord c =
     \<lparr>created = c, summary = ''Notes'', tags = [''md'', ''docs''], stale = False,
      staleReason = None\<rparr>"

definition exampleFiles :: filesystem where
  \<comment> \<open>a file system for the examples: every path is an empty file born at the epoch\<close>
  "exampleFiles = (\<lambda>filePath. Inr \<lparr>stat_birthtime = 0, stat_size = 0, readFile = Some []\<rparr>)"

definition createdOf :: "Server \<Rightarrow> string \<Rightarrow> int option" where
  \<comment> \<open>the \<open>created\<close> field of the record of a path, when the path is tracked\<close>
  "createdOf s filePath = map_option created (map_of (files s) filePath)"

fun retryDelays :: "save_result list \<Rightarrow> nat list" where
  \<comment> \<open>the delays of the timers set along a chain of saves\<close>
  "retryDelays [] = []"
| "retryDelays (RetryScheduled d # rs) = d # retryDelays rs"
| "retryDelays (r # rs) = retryDelays rs"

section \<open>Properties of the classifier\<close>

text \<open>
  C5, as the code has it. The two extension tables are consulted before the content:
  an empty buffer is text unless the extension is in the known-binary table; the PNG
  signature \<open>89 50 4E 47\<close> is binary when the extension is in neither table; and a path
  with extension \<open>.md\<close> is text whatever its content.
\<close>

theorem isBinary_decision_order:
  "(toLowerCase (extname p) \<notin> set knownBinaryExts \<longrightarrow> \<not> isBinary [] p) \<and>
   (toLowerCase (extname p) \<notin> set knownTextExts \<and>
    toLowerCase (extname p) \<notin> set knownBinaryExts \<longrightarrow>
      isBinary [0x89, 0x50, 0x4E, 0x47] p) \<and>
   (toLowerCase (extname p) = ''.md'' \<longrightarrow> \<not> isBinary buffer p)"
  by (simp add: isBinary_def Let_def magicBytes_def knownTextExts_def)

theorem isBinary_decision_order_witness:
  "\<not> isBinary [] ''notes.xyz'' \<and> isBinary [0x89, 0x50, 0x4E, 0x47] ''notes.xyz'' \<and>
   \<not> isBinary [0, 0, 0, 0, 0] ''README.MD''"
proof -
  have "toLowerCase (extname ''notes.xyz'') \<notin> set knownBinaryExts"
    and "toLowerCase (extname ''notes.xyz'') \<notin> set knownTextExts"
    and "toLowerCase (extname ''README.MD'') = ''.md''"
    by code_simp+
  with isBinary_decision_order [of "''notes.xyz''" "[]"]
    isBinary_decision_order [of "''README.MD''" "[0, 0, 0, 0, 0]"]
  show ?thesis by blast
qed

text \<open>
  C5 as stated fails in its first part: a zero-byte file named \<open>empty.png\<close> is
  classified as binary, by its extension.
\<close>

theorem isBinary_empty_png: "isBinary [] ''empty.png''"
  by code_simp

section \<open>Properties of the summary extractor\<close>

lemma trim_Nil: "trim [] = []"
  by (simp add: trim_def)

lemma find_nonblank:
  assumes "\<exists>l\<in>set ls. trim l \<noteq> []"
  shows "\<exists>l. find (\<lambda>l. trim l \<noteq> []) ls = Some l \<and> l \<noteq> []"
proof -
  from assms obtain l where "find (\<lambda>l. trim l \<noteq> []) ls = Some l"
    by (cases "find (\<lambda>l. trim l \<noteq> []) ls") (auto simp: find_None_iff)
  moreover from this have "trim l \<noteq> []"
    by (auto simp: find_Some_iff)
  ultimately show ?thesis
    using trim_Nil by auto
qed

lemma sourceExts_length:
  "ext \<in> set sourceExts \<Longrightarrow> length (drop 1 ext @ '' source file'') \<le> 80"
  by (auto simp: sourceExts_def)

text \<open>
  The branch of \<open>generateSummary\<close> for source files: the first non-blank line whose
  trimmed text starts with \<open>//\<close> or \<open>#\<close> is taken; when the line itself starts with
  the marker, its leading run of \<open>/\<close> and \<open>#\<close> and the white space after it are
  removed; when the line is indented, it is left as it is.
\<close>

lemma generateSummary_source:
  assumes "content \<noteq> []" and "extname filePath \<in> set sourceExts"
  shows "generateSummary content filePath =
    (case find isCommentLine (nonBlankLines content) of
       None \<Rightarrow> drop 1 (extname filePath) @ '' source file''
     | Some l \<Rightarrow> take 80 (stripCommentMarker l))"
proof -
  from assms(2) have "extname filePath \<noteq> ''.md''"
    by (auto simp: sourceExts_def)
  with assms show ?thesis
    by (simp add: generateSummary_def Let_def)
qed

lemma stripCommentMarker_unindented:
  assumes "startsWith l ''//'' \<or> startsWith l ''#''"
  shows "stripCommentMarker l =
    dropWhile isWhiteSpace (dropWhile (\<lambda>c. c = CHR ''/'' \<or> c = CHR ''#'') l)"
  using assms by (cases l) (auto simp: stripCommentMarker_def startsWith_def)

lemma stripCommentMarker_indented:
  assumes "isWhiteSpace c"
  shows "stripCommentMarker (c # l) = c # l"
  using assms by (auto simp: stripCommentMarker_def isWhiteSpace_def)

text \<open>
  A sample of \<open>test-local.js\<close>: a comment line that starts in the first column
  gives the comment without its marker.
\<close>

lemma generateSummary_api_ts:
  "generateSummary (''// API endpoint definitions'' @ [NL] @ ''export class ApiService {}'')
     ''src/api.ts'' = ''API endpoint definitions''"
  by code_simp

text \<open>
  C8 at a source file whose first comment line is indented: the line is found through
  its trimmed form, but the marker is looked for at the first character of the
  untrimmed line, so nothing is stripped and the summary is the whole line.
\<close>

theorem generateSummary_indented_comment:
  "generateSummary ''  // a'' ''x.js'' = ''  // a''"
  by code_simp

text \<open>
  The length of a summary. Every branch of \<open>generateSummary\<close> that takes its text
  from the content cuts it with \<open>slice(0, 80)\<close>; the branches that build the summary
  from the file name do not.
\<close>

lemma generateSummary_length_content:
  assumes "\<exists>l\<in>set (str_split NL content). trim l \<noteq> []"
  shows "length (generateSummary content filePath) \<le> 80"
proof -
  from find_nonblank [OF assms] obtain l where
    l: "find (\<lambda>l. trim l \<noteq> []) (str_split NL content) = Some l" "l \<noteq> []"
    by blast
  have md: "length (or_else (take 80 x) ''Empty markdown file'') \<le> 80" for x
    by (simp add: or_else_def)
  have ne: "content \<noteq> []"
    using assms by (auto simp: trim_Nil)
  show ?thesis
    unfolding generateSummary_def Let_def
    using l sourceExts_length [of "extname filePath"] md ne
    by (auto simp: or_else_def split: option.splits list.splits)
qed

lemma generateSummary_empty:
  "generateSummary [] filePath = extname filePath @ '' file''"
  by (simp add: generateSummary_def)

lemma generateSummary_length_md:
  assumes "content \<noteq> []" and "extname filePath = ''.md''"
  shows "length (generateSummary content filePath) \<le> 80"
  using assms
  by (auto simp: generateSummary_def Let_def or_else_def split: option.splits list.splits)

lemma generateSummary_length_source:
  assumes "content \<noteq> []" and "extname filePath \<in> set sourceExts"
  shows "length (generateSummary content filePath) \<le> 80"
  using assms sourceExts_length [of "extname filePath"]
  by (auto simp: generateSummary_source split: option.splits)

lemma generateSummary_blank:
  assumes "content \<noteq> []" and "\<forall>l\<in>set (str_split NL content). trim l = []"
    and "extname filePath \<noteq> ''.md''" and "extname filePath \<notin> set sourceExts"
  shows "generateSummary content filePath = basename filePath"
proof -
  from assms(2) have "find (\<lambda>l. trim l \<noteq> []) (str_split NL content) = None"
    by (simp add: find_None_iff)
  with assms show ?thesis
    by (simp add: generateSummary_def Let_def)
qed

text \<open>
  So the summary is longer than 80 characters in two cases only: the content is empty
  and the extension has more than 75 characters (the summary is \<open><ext> file\<close>), or the
  content is blank, the file is neither markdown nor a source file, and its name has
  more than 80 characters (the summary is the name).
\<close>

lemma generateSummary_length_cases:
  "length (generateSummary content filePath) \<le> 80 \<or>
   (content = [] \<and> 75 < length (extname filePath)) \<or>
   (content \<noteq> [] \<and> (\<forall>l\<in>set (str_split NL content). trim l = []) \<and>
    extname filePath \<noteq> ''.md'' \<and> extname filePath \<notin> set sourceExts \<and>
    80 < length (basename filePath))"
proof (cases "content = []")
  case True
  then show ?thesis
    by (auto simp: generateSummary_empty)
next
  case ne: False
  show ?thesis
  proof (cases "\<exists>l\<in>set (str_split NL content). trim l \<noteq> []")
    case True
    from generateSummary_length_content [OF this] show ?thesis ..
  next
    case False
    then have blank: "\<forall>l\<in>set (str_split NL content). trim l = []"
      by blast
    show ?thesis
    proof (cases "extname filePath = ''.md'' \<or> extname filePath \<in> set sourceExts")
      case True
      with ne generateSummary_length_md generateSummary_length_source show ?thesis
        by blast
    next
      case False
      with ne blank generateSummary_blank [of content filePath] show ?thesis
        by (cases "80 < length (basename filePath)") auto
    qed
  qed
qed

lemma generateSummary_long_name:
  "generateSummary '' '' (replicate 81 CHR ''x'') = replicate 81 CHR ''x''"
  by code_simp

lemma generateSummary_extension_text:
  "generateSummary [] (''a.'' @ replicate 80 CHR ''x'') =
     ''.'' @ replicate 80 CHR ''x'' @ '' file''"
  by code_simp

text \<open>
  C9 at a file with no content (an empty file, or one whose content is skipped) and an
  extension of 81 characters: the summary \<open><ext> file\<close> is returned as it is built,
  without the cut to 80 characters that the other branches make, and has 86 characters.
\<close>

theorem generateSummary_long_extension:
  "length (generateSummary [] (''a.'' @ replicate 80 CHR ''x'')) = 86"
  by code_simp

section \<open>Properties of the ignore-pattern engine\<close>

text \<open>
  C6: the pattern \<open>dist/\<close> matches \<open>project/dist/out.js\<close> and \<open>dist/out.js\<close> and
  does not match \<open>distribution/out.js\<close>; the pattern \<open>*.log\<close> matches \<open>a.log\<close> and
  \<open>dir/b.log\<close>.
\<close>

theorem globToRegex_examples:
  "test (globToRegex ''dist/'') ''project/dist/out.js'' \<and>
   test (globToRegex ''dist/'') ''dist/out.js'' \<and>
   \<not> test (globToRegex ''dist/'') ''distribution/out.js'' \<and>
   test (globToRegex ''*.log'') ''a.log'' \<and>
   test (globToRegex ''*.log'') ''dir/b.log''"
  by code_simp

lemma test_loadIgnorePatterns:
  "list_ex (\<lambda>r. test r path) alwaysIgnored \<Longrightarrow> ignored (loadIgnorePatterns t g) path"
  by (auto simp: ignored_def loadIgnorePatterns_def list_ex_iff)

lemma rmatch_literals:
  "rmatch (foldr Seq (map Chr w) Empty) (a @ w @ b) (length a) = [length a + length w]"
proof (induction w arbitrary: a)
  case Nil
  then show ?case by simp
next
  case (Cons x w)
  have "rmatch (foldr Seq (map Chr w) Empty) ((a @ [x]) @ w @ b) (length (a @ [x])) =
      [length (a @ [x]) + length w]"
    by (rule Cons.IH)
  then show ?case by simp
qed

lemma test_anchored_literals:
  "test (seqs (Alt Bol sepClass # map Chr w)) (dir @ ''/'' @ w @ rest)"
proof -
  let ?s = "dir @ ''/'' @ w @ rest"
  have "rmatch (foldr Seq (map Chr w) Empty) ((dir @ ''/'') @ w @ rest) (length (dir @ ''/'')) =
      [length (dir @ ''/'') + length w]"
    by (rule rmatch_literals)
  then have lits: "rmatch (foldr Seq (map Chr w) Empty) ?s (Suc (length dir)) \<noteq> []"
    by simp
  have "Suc (length dir) \<in> set (rmatch (Alt Bol sepClass) ?s (length dir))"
    by (simp add: sepClass_def)
  with lits have "rmatch (seqs (Alt Bol sepClass # map Chr w)) ?s (length dir) \<noteq> []"
    by (auto simp: seqs_def simp del: rmatch.simps(6))
  moreover have "length dir \<in> set [0..<Suc (length ?s)]"
    by simp
  ultimately show ?thesis
    unfolding test_def list_ex_iff by blast
qed

lemma alwaysIgnored_document:
  "list_ex (\<lambda>r. test r (dir @ ''/_timepon.yaml'' @ rest)) alwaysIgnored"
  using test_anchored_literals [of "''_timepon.yaml''" dir rest]
  by (simp add: alwaysIgnored_def)

text \<open>
  C4, as the code has it: the list that \<open>loadIgnorePatterns\<close> returns is the patterns
  of \<open>.tponignore\<close>, then those of \<open>.gitignore\<close>, then exactly two built-in patterns;
  a path that one of the two matches is ignored whatever the two files hold, and so is
  every path with a component that starts with \<open>_timepon.yaml\<close> (the document and its
  backups).
\<close>

theorem loadIgnorePatterns_builtin:
  "loadIgnorePatterns t g = (parseIgnoreFile t @ parseIgnoreFile g) @ alwaysIgnored \<and>
   length alwaysIgnored = 2 \<and>
   (list_ex (\<lambda>r. test r path) alwaysIgnored \<longrightarrow> ignored (loadIgnorePatterns t g) path) \<and>
   ignored (loadIgnorePatterns t g) (dir @ ''/_timepon.yaml'' @ rest)"
  using test_loadIgnorePatterns [of path t g]
    test_loadIgnorePatterns [OF alwaysIgnored_document, where t = t and g = g]
  by (simp add: loadIgnorePatterns_def alwaysIgnored_def)

theorem loadIgnorePatterns_builtin_witness:
  "list_ex (\<lambda>r. test r ''/w/_timepon.yaml'') alwaysIgnored \<and>
   ignored (loadIgnorePatterns (Some (''!_timepon.yaml'' @ [NL] @ ''*.log'')) None)
     ''/w/_timepon.yaml''"
proof -
  have h: "list_ex (\<lambda>r. test r ''/w/_timepon.yaml'') alwaysIgnored"
    by code_simp
  with loadIgnorePatterns_builtin
    [where t = "Some (''!_timepon.yaml'' @ [NL] @ ''*.log'')" and g = None
      and path = "''/w/_timepon.yaml''"]
  show ?thesis by blast
qed

text \<open>
  C4 as stated fails: with neither ignore file present the list has two patterns, so
  it does not end with three built-in ones.
\<close>

theorem loadIgnorePatterns_not_three:
  "length (loadIgnorePatterns None None) = 2 \<and>
   \<not> (\<exists>user b1 b2 b3. loadIgnorePatterns None None = user @ [b1, b2, b3])"
proof
  show len: "length (loadIgnorePatterns None None) = 2"
    by (simp add: loadIgnorePatterns_def parseIgnoreFile_def alwaysIgnored_def)
  show "\<not> (\<exists>user b1 b2 b3. loadIgnorePatterns None None = user @ [b1, b2, b3])"
  proof
    assume "\<exists>user b1 b2 b3. loadIgnorePatterns None None = user @ [b1, b2, b3]"
    then obtain user b1 b2 b3 where "loadIgnorePatterns None None = user @ [b1, b2, b3]"
      by blast
    then have "length (loadIgnorePatterns None None) = length (user @ [b1, b2, b3])"
      by simp
    with len show False
      by simp
  qed
qed

section \<open>Properties of the metadata index\<close>

lemma saveMetadata_files: "files (fst (saveMetadata writeOk s)) = files s"
  by (simp add: saveMetadata_def Let_def)

lemma createdOf_saveMetadata: "createdOf (fst (saveMetadata writeOk s)) p = createdOf s p"
  by (simp add: createdOf_def saveMetadata_files)

lemma files_handleFileCreation:
  "files (fst (handleFileCreation fs writeOk s q)) = files s \<or>
   (map_of (files s) q = None \<and>
    (\<exists>m. files (fst (handleFileCreation fs writeOk s q)) = AList.update q m (files s)))"
  by (auto simp add: handleFileCreation_def Let_def case_prod_beta saveMetadata_files
      split: sum.split)

lemma createdOf_handleFileCreation:
  assumes "createdOf s p = Some t"
  shows "createdOf (fst (handleFileCreation fs writeOk s q)) p = Some t"
proof -
  let ?s' = "fst (handleFileCreation fs writeOk s q)"
  from files_handleFileCreation [of fs writeOk s q]
  consider "files ?s' = files s"
    | m where "map_of (files s) q = None" "files ?s' = AList.update q m (files s)"
    by blast
  then show ?thesis
  proof cases
    case 1
    with assms show ?thesis by (simp add: createdOf_def)
  next
    case 2
    with assms have "q \<noteq> p" by (auto simp: createdOf_def)
    with 2 assms show ?thesis by (simp add: createdOf_def update_conv')
  qed
qed

lemma createdOf_refreshFile:
  assumes "createdOf s p = Some t"
  shows "createdOf (fst (refreshFile fs q (s, c))) p = Some t"
proof (cases "fs q")
  case (Inl message)
  with assms show ?thesis
    by (auto simp: refreshFile_def createdOf_def map_of_map_entry)
next
  case (Inr f)
  show ?thesis
  proof (cases "map_of (files s) q")
    case None
    with Inr assms show ?thesis by (simp add: refreshFile_def)
  next
    case (Some old)
    with Inr assms show ?thesis
      by (auto simp: refreshFile_def Let_def createdOf_def update_conv')
  qed
qed

lemma createdOf_fold_refreshFile:
  assumes "createdOf (fst sc) p = Some t"
  shows "createdOf (fst (fold (refreshFile fs) qs sc)) p = Some t"
  using assms
proof (induction qs arbitrary: sc)
  case Nil
  then show ?case by simp
next
  case (Cons q qs)
  obtain s c where sc: "sc = (s, c)" by (cases sc)
  with Cons.prems have "createdOf (fst (refreshFile fs q sc)) p = Some t"
    by (simp add: createdOf_refreshFile)
  then show ?case by (simp add: Cons.IH)
qed

lemma createdOf_fold_batches:
  assumes "createdOf (fst sc) p = Some t"
  shows "createdOf (fst (fold (\<lambda>batch sc. fold (refreshFile fs) batch sc) bs sc)) p = Some t"
  using assms
  by (induction bs arbitrary: sc) (simp_all add: createdOf_fold_refreshFile)

lemma createdOf_refreshMetadata:
  assumes "createdOf s p = Some t"
  shows "createdOf (fst (refreshMetadata fs writeOk s)) p = Some t"
proof -
  let ?start = "(s, \<lparr>updatedCount = 0, errorCount = 0, staleCount = 0\<rparr>)"
  let ?r = "fold (\<lambda>batch sc. fold (refreshFile fs) batch sc)
    (batches BATCH_SIZE (map fst (files s))) ?start"
  have "createdOf (fst ?r) p = Some t"
    using assms by (intro createdOf_fold_batches) simp
  moreover have "fst (refreshMetadata fs writeOk s) = fst (saveMetadata writeOk (fst ?r))"
    by (simp add: refreshMetadata_def Let_def split: prod.splits)
  ultimately show ?thesis
    by (simp add: createdOf_saveMetadata)
qed

lemma createdOf_step:
  assumes "createdOf s p = Some t"
  shows "createdOf (step w s) p = Some t"
proof -
  obtain fs writeOk ev where w: "w = (fs, writeOk, ev)" by (cases w)
  have "createdOf (s\<lparr>isInitializing := False\<rparr>) p = Some t"
    using assms by (simp add: createdOf_def)
  then show ?thesis
    using assms
    by (cases ev)
      (simp_all add: w step_def createdOf_handleFileCreation createdOf_saveMetadata
        createdOf_refreshMetadata)
qed

text \<open>
  C7: once a path is tracked with \<open>created = t\<close>, it stays tracked with
  \<open>created = t\<close> through every sequence of events: refreshes that succeed or fail
  (each event meets its own file system), watcher events for this or other paths, and
  saves with their retries.
\<close>

theorem created_invariant:
  assumes "createdOf s p = Some t"
  shows "createdOf (run ws s) p = Some t"
  using assms unfolding run_def
  by (induction ws arbitrary: s) (simp_all add: createdOf_step)

theorem created_invariant_witness:
  "createdOf
     (run [(\<lambda>p. Inl ''ENOENT'', True, RefreshRequested),
           (\<lambda>p. Inr \<lparr>stat_birthtime = 900, stat_size = 7, readFile = Some []\<rparr>, False,
            RefreshRequested),
           (\<lambda>p. Inr \<lparr>stat_birthtime = 900, stat_size = 7, readFile = Some []\<rparr>, True,
            FileAdded ''/w/a.md'')]
        \<lparr>files = [(''/w/a.md'',
                    \<lparr>created = 5, summary = ''A'', tags = [''md''], stale = False,
                     staleReason = None\<rparr>)],
         isInitializing = False, saveRetryCount = 0\<rparr>)
     ''/w/a.md'' = Some 5"
  by (rule created_invariant) (simp add: createdOf_def)

text \<open>
  C10: a watcher event for a path that is already tracked leaves the whole server state
  as it was, the index included, and makes no call of \<open>saveMetadata\<close>.
\<close>

theorem handleFileCreation_duplicate:
  assumes "map_of (files s) filePath = Some r"
  shows "handleFileCreation fs writeOk s filePath = (s, [])"
  using assms by (simp add: handleFileCreation_def)

theorem handleFileCreation_duplicate_witness:
  "handleFileCreation
     (\<lambda>p. Inr \<lparr>stat_birthtime = 900, stat_size = 7, readFile = Some []\<rparr>) True
     \<lparr>files = [(''/w/a.md'',
                 \<lparr>created = 5, summary = ''A'', tags = [''md''], stale = False,
                  staleReason = None\<rparr>)],
      isInitializing = False, saveRetryCount = 0\<rparr>
     ''/w/a.md'' =
   (\<lparr>files = [(''/w/a.md'',
                 \<lparr>created = 5, summary = ''A'', tags = [''md''], stale = False,
                  staleReason = None\<rparr>)],
      isInitializing = False, saveRetryCount = 0\<rparr>, [])"
  by (rule handleFileCreation_duplicate) simp

section \<open>Properties of the durable writer\<close>

lemma list_shape4:
  "xs = [] \<or> (\<exists>a. xs = [a]) \<or> (\<exists>a b. xs = [a, b]) \<or> (\<exists>a b c. xs = [a, b, c]) \<or>
   (\<exists>a b c d r. xs = a # b # c # d # r)"
  by (metis neq_Nil_conv)

lemma saveMetadata_True: "saveMetadata True s = (s\<lparr>saveRetryCount := 0\<rparr>, Saved)"
  by (simp add: saveMetadata_def)

lemma saveMetadata_False:
  "saveMetadata False s =
     (if saveRetryCount s < 3
      then (s\<lparr>saveRetryCount := Suc (saveRetryCount s)\<rparr>,
            RetryScheduled (2 ^ Suc (saveRetryCount s) * 1000))
      else (s\<lparr>saveRetryCount := 0\<rparr>, Exhausted))"
  by (simp add: saveMetadata_def Let_def SAVE_RETRY_MAX_def SAVE_RETRY_BASE_DELAY_def)

lemma saveWithRetries_traces:
  assumes "saveRetryCount s = 0"
  shows "snd (saveWithRetries oks s) \<in>
    {[], [Saved], [RetryScheduled 2000], [RetryScheduled 2000, Saved],
     [RetryScheduled 2000, RetryScheduled 4000],
     [RetryScheduled 2000, RetryScheduled 4000, Saved],
     [RetryScheduled 2000, RetryScheduled 4000, RetryScheduled 8000],
     [RetryScheduled 2000, RetryScheduled 4000, RetryScheduled 8000, Saved],
     [RetryScheduled 2000, RetryScheduled 4000, RetryScheduled 8000, Exhausted]}"
    (is "_ \<in> ?T")
proof -
  note sm = saveMetadata_True saveMetadata_False
  have 0: "snd (saveWithRetries [] s) \<in> ?T"
    by simp
  have 1: "snd (saveWithRetries [a] s) \<in> ?T" for a
    using assms by (cases a) (simp_all add: sm)
  have 2: "snd (saveWithRetries [a, b] s) \<in> ?T" for a b
    using assms by (cases a; cases b) (simp_all add: sm)
  have 3: "snd (saveWithRetries [a, b, c] s) \<in> ?T" for a b c
    using assms by (cases a; cases b; cases c) (simp_all add: sm)
  have 4: "snd (saveWithRetries (a # b # c # d # r) s) \<in> ?T" for a b c d r
    using assms by (cases a; cases b; cases c; cases d) (simp_all add: sm)
  from list_shape4 [of oks] 0 1 2 3 4 show ?thesis
    by (elim disjE exE) simp_all
qed

lemma saveWithRetries_exhausted:
  assumes "saveRetryCount s = 0"
  shows "saveWithRetries (False # False # False # False # later) s =
    (s\<lparr>saveRetryCount := 0\<rparr>,
     [RetryScheduled 2000, RetryScheduled 4000, RetryScheduled 8000, Exhausted])"
  using assms
  by (simp add: saveMetadata_False)

lemma upt_1_4:
  "[1..<Suc 0] = [] \<and> [1..<Suc 1] = [1] \<and> [1..<Suc 2] = [1, 2] \<and> [1..<Suc 3] = [1, 2, 3]"
  by (simp add: upt_rec)

text \<open>
  The retry counter is one field of the server, read and written by every call of
  \<open>saveMetadata\<close>, whichever event makes the call. It never exceeds
  \<open>SAVE_RETRY_MAX\<close>, whatever events the server meets.
\<close>

lemma saveRetryCount_saveMetadata:
  "saveRetryCount s \<le> SAVE_RETRY_MAX \<Longrightarrow>
   saveRetryCount (fst (saveMetadata writeOk s)) \<le> SAVE_RETRY_MAX"
  by (simp add: saveMetadata_def Let_def)

lemma saveRetryCount_handleFileCreation:
  "saveRetryCount s \<le> SAVE_RETRY_MAX \<Longrightarrow>
   saveRetryCount (fst (handleFileCreation fs writeOk s filePath)) \<le> SAVE_RETRY_MAX"
  using saveRetryCount_saveMetadata
    [of "s\<lparr>files := AList.update filePath m (files s)\<rparr>" writeOk for m]
  by (auto simp: handleFileCreation_def Let_def case_prod_beta split: sum.splits)

lemma saveRetryCount_refreshFile:
  "saveRetryCount (fst (refreshFile fs filePath sc)) = saveRetryCount (fst sc)"
  by (auto simp: refreshFile_def Let_def split: prod.splits sum.splits option.splits)

lemma saveRetryCount_fold_refreshFile:
  "saveRetryCount (fst (fold (refreshFile fs) batch sc)) = saveRetryCount (fst sc)"
  by (induction batch arbitrary: sc) (simp_all add: saveRetryCount_refreshFile)

lemma saveRetryCount_fold_batches:
  "saveRetryCount (fst (fold (\<lambda>batch sc. fold (refreshFile fs) batch sc) bs sc)) =
   saveRetryCount (fst sc)"
  by (induction bs arbitrary: sc) (simp_all add: saveRetryCount_fold_refreshFile)

lemma saveRetryCount_refreshMetadata:
  assumes "saveRetryCount s \<le> SAVE_RETRY_MAX"
  shows "saveRetryCount (fst (refreshMetadata fs writeOk s)) \<le> SAVE_RETRY_MAX"
proof -
  let ?sc = "fold (\<lambda>batch sc. fold (refreshFile fs) batch sc)
    (batches BATCH_SIZE (map fst (files s)))
    (s, \<lparr>updatedCount = 0, errorCount = 0, staleCount = 0\<rparr>)"
  have "fst (refreshMetadata fs writeOk s) = fst (saveMetadata writeOk (fst ?sc))"
    by (simp add: refreshMetadata_def Let_def case_prod_beta)
  moreover have "saveRetryCount (fst ?sc) \<le> SAVE_RETRY_MAX"
    using assms by (simp add: saveRetryCount_fold_batches)
  ultimately show ?thesis
    by (simp add: saveRetryCount_saveMetadata)
qed

lemma saveRetryCount_step:
  assumes "saveRetryCount s \<le> SAVE_RETRY_MAX"
  shows "saveRetryCount (step w s) \<le> SAVE_RETRY_MAX"
proof -
  obtain fs writeOk ev where w: "w = (fs, writeOk, ev)"
    by (cases w)
  show ?thesis
  proof (cases ev)
    case (FileAdded filePath)
    with w assms show ?thesis
      by (simp add: step_def saveRetryCount_handleFileCreation)
  next
    case WatcherReady
    with w assms saveRetryCount_saveMetadata [of "s\<lparr>isInitializing := False\<rparr>" writeOk]
    show ?thesis
      by (simp add: step_def)
  next
    case RefreshRequested
    with w assms show ?thesis
      by (simp add: step_def saveRetryCount_refreshMetadata)
  next
    case RetryTimerFired
    with w assms show ?thesis
      by (simp add: step_def saveRetryCount_saveMetadata)
  qed
qed

lemma saveRetryCount_run:
  "saveRetryCount s \<le> SAVE_RETRY_MAX \<Longrightarrow> saveRetryCount (run ws s) \<le> SAVE_RETRY_MAX"
  unfolding run_def
  by (induction ws arbitrary: s) (simp_all add: saveRetryCount_step)

text \<open>
  C3, as the code has it. A call of \<open>saveMetadata\<close> whose write fails returns at once:
  the retry is a timer, a later event and not part of the call. With the retry counter
  at \<open>c\<close> below \<open>SAVE_RETRY_MAX = 3\<close>, the call sets the counter to \<open>c + 1\<close> and the
  timer \<open>2 ^ (c + 1) * SAVE_RETRY_BASE_DELAY\<close> milliseconds ahead; with the counter at
  the maximum it sets no timer, reports the failure and puts the counter back to zero;
  a write that succeeds puts the counter back to zero as well. So for a save that
  starts with the counter at zero and whose retries are the only calls in between (the
  chain that \<open>saveWithRetries\<close> follows): whatever the outcomes \<open>oks\<close> of the
  successive writes, at most three retries are scheduled, and the delay before the
  \<open>k\<close>-th retry is \<open>2 ^ k * SAVE_RETRY_BASE_DELAY\<close> for \<open>k = 1, 2, 3\<close>, that is
  2000, 4000 and 8000 milliseconds, since the counter is incremented before the delay
  is computed; when the first write and the three retries all fail, the chain ends with
  the failure reported and the counter at zero, where the next save starts.
\<close>

theorem saveMetadata_retry:
  "(saveRetryCount s < SAVE_RETRY_MAX \<longrightarrow>
      saveMetadata False s =
        (s\<lparr>saveRetryCount := saveRetryCount s + 1\<rparr>,
         RetryScheduled (2 ^ (saveRetryCount s + 1) * SAVE_RETRY_BASE_DELAY))) \<and>
   (SAVE_RETRY_MAX \<le> saveRetryCount s \<longrightarrow>
      saveMetadata False s = (s\<lparr>saveRetryCount := 0\<rparr>, Exhausted)) \<and>
   saveMetadata True s = (s\<lparr>saveRetryCount := 0\<rparr>, Saved) \<and>
   (saveRetryCount s = 0 \<longrightarrow>
      length (retryDelays (snd (saveWithRetries oks s))) \<le> SAVE_RETRY_MAX \<and>
      retryDelays (snd (saveWithRetries oks s)) =
        map (\<lambda>k. 2 ^ k * SAVE_RETRY_BASE_DELAY)
          [1..<Suc (length (retryDelays (snd (saveWithRetries oks s))))] \<and>
      saveWithRetries (False # False # False # False # later) s =
        (s\<lparr>saveRetryCount := 0\<rparr>,
         [RetryScheduled (2 ^ 1 * SAVE_RETRY_BASE_DELAY),
          RetryScheduled (2 ^ 2 * SAVE_RETRY_BASE_DELAY),
          RetryScheduled (2 ^ 3 * SAVE_RETRY_BASE_DELAY), Exhausted]))"
proof -
  have retry: "saveRetryCount s < SAVE_RETRY_MAX \<longrightarrow>
      saveMetadata False s =
        (s\<lparr>saveRetryCount := saveRetryCount s + 1\<rparr>,
         RetryScheduled (2 ^ (saveRetryCount s + 1) * SAVE_RETRY_BASE_DELAY))"
    by (simp add: saveMetadata_def Let_def)
  have exhausted: "SAVE_RETRY_MAX \<le> saveRetryCount s \<longrightarrow>
      saveMetadata False s = (s\<lparr>saveRetryCount := 0\<rparr>, Exhausted)"
    by (simp add: saveMetadata_def)
  have success: "saveMetadata True s = (s\<lparr>saveRetryCount := 0\<rparr>, Saved)"
    by (simp add: saveMetadata_def)
  have chain: "length (retryDelays (snd (saveWithRetries oks s))) \<le> SAVE_RETRY_MAX \<and>
      retryDelays (snd (saveWithRetries oks s)) =
        map (\<lambda>k. 2 ^ k * SAVE_RETRY_BASE_DELAY)
          [1..<Suc (length (retryDelays (snd (saveWithRetries oks s))))] \<and>
      saveWithRetries (False # False # False # False # later) s =
        (s\<lparr>saveRetryCount := 0\<rparr>,
         [RetryScheduled (2 ^ 1 * SAVE_RETRY_BASE_DELAY),
          RetryScheduled (2 ^ 2 * SAVE_RETRY_BASE_DELAY),
          RetryScheduled (2 ^ 3 * SAVE_RETRY_BASE_DELAY), Exhausted])"
    if zero: "saveRetryCount s = 0"
  proof -
    have delays: "length (retryDelays (snd (saveWithRetries oks s))) \<le> SAVE_RETRY_MAX \<and>
      retryDelays (snd (saveWithRetries oks s)) =
        map (\<lambda>k. 2 ^ k * SAVE_RETRY_BASE_DELAY)
          [1..<Suc (length (retryDelays (snd (saveWithRetries oks s))))]"
      using saveWithRetries_traces [OF zero, of oks] upt_1_4
      by (auto simp: SAVE_RETRY_MAX_def SAVE_RETRY_BASE_DELAY_def)
    have last: "saveWithRetries (False # False # False # False # later) s =
        (s\<lparr>saveRetryCount := 0\<rparr>,
         [RetryScheduled (2 ^ 1 * SAVE_RETRY_BASE_DELAY),
          RetryScheduled (2 ^ 2 * SAVE_RETRY_BASE_DELAY),
          RetryScheduled (2 ^ 3 * SAVE_RETRY_BASE_DELAY), Exhausted])"
      using saveWithRetries_exhausted [OF zero, of later]
      by (simp add: SAVE_RETRY_BASE_DELAY_def)
    from delays last show ?thesis by blast
  qed
  from retry exhausted success chain show ?thesis
    by blast
qed

theorem saveMetadata_retry_witness:
  "saveMetadata False \<lparr>files = [], isInitializing = False, saveRetryCount = 1\<rparr> =
     (\<lparr>files = [], isInitializing = False, saveRetryCount = 2\<rparr>, RetryScheduled 4000) \<and>
   saveMetadata False \<lparr>files = [], isInitializing = False, saveRetryCount = 3\<rparr> =
     (\<lparr>files = [], isInitializing = False, saveRetryCount = 0\<rparr>, Exhausted) \<and>
   retryDelays
     (snd (saveWithRetries [False, False, True]
        \<lparr>files = [], isInitializing = False, saveRetryCount = 0\<rparr>)) = [2000, 4000] \<and>
   saveWithRetries [False, False, False, False]
     \<lparr>files = [], isInitializing = False, saveRetryCount = 0\<rparr> =
     (\<lparr>files = [], isInitializing = False, saveRetryCount = 0\<rparr>,
      [RetryScheduled 2000, RetryScheduled 4000, RetryScheduled 8000, Exhausted])"
  using saveMetadata_retry
    [of "\<lparr>files = [], isInitializing = False, saveRetryCount = 1\<rparr>"]
    saveMetadata_retry
    [of "\<lparr>files = [], isInitializing = False, saveRetryCount = 3\<rparr>"]
    saveMetadata_retry
    [of "\<lparr>files = [], isInitializing = False, saveRetryCount = 0\<rparr>"
      "[False, False, True]" "[]"]
  by (simp add: saveMetadata_True saveMetadata_False SAVE_RETRY_BASE_DELAY_def
      SAVE_RETRY_MAX_def)

lemma handleFileCreation_failing:
  assumes "map_of (files s) p = None" and "fs p = Inr f" and "\<not> isInitializing s"
    and "saveRetryCount s < 3"
  shows "snd (handleFileCreation fs False s p) =
      [RetryScheduled (2 ^ Suc (saveRetryCount s) * 1000)]"
    and "saveRetryCount (fst (handleFileCreation fs False s p)) = Suc (saveRetryCount s)"
    and "\<not> isInitializing (fst (handleFileCreation fs False s p))"
    and "map_of (files (fst (handleFileCreation fs False s p))) q = None \<longleftrightarrow>
      q \<noteq> p \<and> map_of (files s) q = None"
  using assms
  by (simp_all add: handleFileCreation_def Let_def saveMetadata_False update_conv')

text \<open>
  C3 as stated fails twice. The backoff does not start at the base delay: the first
  retry after a failed save is set 2000 milliseconds ahead, twice
  \<open>SAVE_RETRY_BASE_DELAY\<close>. And the counter is shared: when a second file is added
  while the retry for the first is still pending and its save fails too, that new save
  finds the counter at 1, and its own first retry is set 4000 milliseconds ahead.
\<close>

theorem first_retry_delay:
  "snd (saveMetadata False \<lparr>files = [], isInitializing = False, saveRetryCount = 0\<rparr>) =
     RetryScheduled 2000 \<and>
   RetryScheduled 2000 \<noteq> RetryScheduled SAVE_RETRY_BASE_DELAY \<and>
   snd (handleFileCreation exampleFiles False
          \<lparr>files = [], isInitializing = False, saveRetryCount = 0\<rparr> ''/w/a.md'') =
     [RetryScheduled 2000] \<and>
   snd (handleFileCreation exampleFiles False
          (fst (handleFileCreation exampleFiles False
                  \<lparr>files = [], isInitializing = False, saveRetryCount = 0\<rparr> ''/w/a.md''))
          ''/w/b.md'') =
     [RetryScheduled 4000]"
proof -
  let ?s0 = "\<lparr>files = [], isInitializing = False, saveRetryCount = 0\<rparr>"
  let ?s1 = "fst (handleFileCreation exampleFiles False ?s0 ''/w/a.md'')"
  have f: "exampleFiles p = Inr \<lparr>stat_birthtime = 0, stat_size = 0, readFile = Some []\<rparr>" for p
    by (simp add: exampleFiles_def)
  have a: "snd (handleFileCreation exampleFiles False ?s0 ''/w/a.md'') = [RetryScheduled 2000]"
    "saveRetryCount ?s1 = 1" "\<not> isInitializing ?s1" "map_of (files ?s1) ''/w/b.md'' = None"
    using handleFileCreation_failing [of ?s0 "''/w/a.md''", OF _ f]
    by simp_all
  have b: "snd (handleFileCreation exampleFiles False ?s1 ''/w/b.md'') = [RetryScheduled 4000]"
    using handleFileCreation_failing(1) [OF a(4) f a(3)] a(2)
    by simp
  have "snd (saveMetadata False ?s0) = RetryScheduled 2000"
    by (simp add: saveMetadata_False)
  moreover have "RetryScheduled 2000 \<noteq> RetryScheduled SAVE_RETRY_BASE_DELAY"
    by (simp add: SAVE_RETRY_BASE_DELAY_def)
  ultimately show ?thesis
    using a(1) b by blast
qed

text \<open>
  After two such saves the counter is at 2. If every write goes on failing, the timer
  callbacks that follow, whichever save each of them retries, are answered in turn with
  a timer of 8000 milliseconds, with the report of failure, and, the counter being
  back at zero while timers are still pending, with timers of 2000, 4000 and 8000
  milliseconds and a second report of failure.
\<close>

lemma step_RetryTimerFired:
  "step (fs, False, RetryTimerFired) s = fst (saveMetadata False s)"
  by (simp add: step_def)

lemma retries_after_two_saves:
  assumes "saveRetryCount s = 2"
  shows "(let t = (fs, False, RetryTimerFired)
          in map (\<lambda>ws. snd (saveMetadata False (run ws s)))
               [[], [t], [t, t], [t, t, t], [t, t, t, t], [t, t, t, t, t]]) =
    [RetryScheduled 8000, Exhausted, RetryScheduled 2000, RetryScheduled 4000,
     RetryScheduled 8000, Exhausted]"
  using assms
  by (simp add: Let_def run_def step_RetryTimerFired saveMetadata_False)

section \<open>Properties of the tree serializer\<close>

lemma div_minute_day: "(t::int) div 86400000 = t div 60000 div 1440"
  by (simp add: zdiv_zmult2_eq [symmetric])

lemma div_minute_hour: "(t::int) div 3600000 = t div 60000 div 60"
  by (simp add: zdiv_zmult2_eq [symmetric])

lemma mod_hour_minute: "(t::int) mod 3600000 div 60000 = t div 60000 mod 60"
proof -
  have "t mod 3600000 = 60000 * (t div 60000 mod 60) + t mod 60000"
    using zmod_zmult2_eq [of 60 t 60000] by simp
  then show ?thesis by simp
qed

lemma mod_day_hour: "(t::int) mod 86400000 div 3600000 = t div 60000 div 60 mod 24"
proof -
  have "t mod 86400000 = 3600000 * (t div 3600000 mod 24) + t mod 3600000"
    using zmod_zmult2_eq [of 24 t 3600000] by simp
  then have "t mod 86400000 div 3600000 = t div 3600000 mod 24"
    by simp
  then show ?thesis by (simp only: div_minute_hour)
qed

lemma getRelativeTime_minute:
  assumes "(now e - c) div 60000 = (now e - c') div 60000"
  shows "getRelativeTime e (Some c) = getRelativeTime e (Some c')"
  using assms
  by (simp add: getRelativeTime_def Let_def div_minute_day div_minute_hour)

lemma formatDateTime_minute:
  assumes "localTime e c div 60000 = localTime e c' div 60000"
    and "(now e - c) div 60000 = (now e - c') div 60000"
  shows "formatDateTime e (Some c) = formatDateTime e (Some c')"
  using assms getRelativeTime_minute [OF assms(2)]
  by (simp add: formatDateTime_def dateShort_def timeHM_def dayNumber_def hours_def
      minutes_def div_minute_day mod_hour_minute mod_day_hour)

lemma fileLines_minute:
  assumes "localTime e c div 60000 = localTime e c' div 60000"
    and "(now e - c) div 60000 = (now e - c') div 60000"
  shows "fileLines e indent key (FileNode c su ts) = fileLines e indent key (FileNode c' su ts)"
  using formatDateTime_minute [OF assms] getRelativeTime_minute [OF assms(2)]
  by (simp add: fileLines_def jsDate_def summaryText_def tagsText_def)


lemma lookupPath_Cons:
  "lookupPath cur (k # qs) =
     (if qs = [] then map_of cur k
      else case map_of cur k of Some (DirNode sub) \<Rightarrow> lookupPath sub qs | _ \<Rightarrow> None)"
  by (cases qs) auto

lemma insertPath_Cons:
  "insertPath (k # r) leaf cur =
     (if r = [] then (if k = ''__proto__'' then None else Some (AList.update k leaf cur))
      else case map_of cur k of
        None \<Rightarrow>
          if k \<in> set inheritedNames then None
          else map_option (\<lambda>sub. AList.update k (DirNode sub) cur) (insertPath r leaf [])
      | Some (DirNode sub0) \<Rightarrow>
          map_option (\<lambda>sub. AList.update k (DirNode sub) cur) (insertPath r leaf sub0)
      | Some (FileNode c su ts) \<Rightarrow> None)"
  by (cases r) auto

lemma walkable_Cons:
  "walkable (k # r) =
     (if r = [] then k \<noteq> ''__proto__'' else k \<notin> set inheritedNames \<and> walkable r)"
  by (cases r) auto

lemma lookupPath_empty: "lookupPath [] qs = None"
  by (cases qs) (simp_all add: lookupPath_Cons)

lemma insertPath_step:
  assumes "insertPath (k # r) leaf cur = Some cur'" and "r \<noteq> []"
  shows "\<exists>sub0 sub. insertPath r leaf sub0 = Some sub \<and> cur' = AList.update k (DirNode sub) cur \<and>
    (\<forall>qs. qs \<noteq> [] \<longrightarrow> lookupPath cur (k # qs) = lookupPath sub0 qs)"
proof (cases "map_of cur k")
  case None
  with assms obtain sub where "insertPath r leaf [] = Some sub"
    "cur' = AList.update k (DirNode sub) cur"
    by (auto simp: insertPath_Cons split: if_splits)
  moreover have "\<forall>qs. qs \<noteq> [] \<longrightarrow> lookupPath cur (k # qs) = lookupPath [] qs"
    using None by (simp add: lookupPath_Cons lookupPath_empty)
  ultimately show ?thesis by blast
next
  case (Some n)
  show ?thesis
  proof (cases n)
    case (FileNode c su ts)
    with Some assms show ?thesis by (simp add: insertPath_Cons)
  next
    case (DirNode sub0)
    with Some assms obtain sub where "insertPath r leaf sub0 = Some sub"
      "cur' = AList.update k (DirNode sub) cur"
      by (auto simp: insertPath_Cons)
    moreover have "\<forall>qs. qs \<noteq> [] \<longrightarrow> lookupPath cur (k # qs) = lookupPath sub0 qs"
      using Some DirNode by (simp add: lookupPath_Cons)
    ultimately show ?thesis by blast
  qed
qed

lemma lookupPath_update_same:
  "qs \<noteq> [] \<Longrightarrow> lookupPath (AList.update k (DirNode sub) cur) (k # qs) = lookupPath sub qs"
  by (simp add: lookupPath_Cons update_conv')

lemma lookupPath_update_other:
  "k' \<noteq> k \<Longrightarrow> lookupPath (AList.update k n cur) (k' # qs) = lookupPath cur (k' # qs)"
  by (simp add: lookupPath_Cons update_conv')

lemma insertPath_same:
  assumes "ps \<noteq> []" and "insertPath ps leaf cur = Some cur'"
  shows "lookupPath cur' ps = Some leaf"
  using assms
proof (induction ps arbitrary: cur cur')
  case Nil
  then show ?case by simp
next
  case (Cons k r)
  show ?case
  proof (cases "r = []")
    case True
    with Cons.prems show ?thesis by (auto simp: update_conv' split: if_splits)
  next
    case False
    from insertPath_step [OF Cons.prems(2) False] obtain sub0 sub where
      "insertPath r leaf sub0 = Some sub" "cur' = AList.update k (DirNode sub) cur"
      by blast
    with Cons.IH [OF False] False show ?thesis
      by (simp add: lookupPath_update_same)
  qed
qed

lemma insertPath_other:
  assumes "insertPath ps leaf cur = Some cur'" and "\<not> prefix ps qs" and "\<not> prefix qs ps"
  shows "lookupPath cur' qs = lookupPath cur qs"
  using assms
proof (induction ps arbitrary: cur cur' qs)
  case Nil
  then show ?case by simp
next
  case (Cons k r)
  from Cons.prems(3) obtain k' qs' where qs: "qs = k' # qs'"
    by (cases qs) auto
  have upd: "\<exists>n. cur' = AList.update k n cur"
  proof (cases "r = []")
    case True
    with Cons.prems(1) show ?thesis by (auto split: if_splits)
  next
    case False
    from insertPath_step [OF Cons.prems(1) False] show ?thesis by blast
  qed
  show ?case
  proof (cases "k' = k")
    case False
    with upd qs show ?thesis by (auto simp: lookupPath_update_other)
  next
    case True
    with Cons.prems(2,3) qs have np: "\<not> prefix r qs'" "\<not> prefix qs' r"
      by auto
    then have ne: "r \<noteq> []" "qs' \<noteq> []" by auto
    from insertPath_step [OF Cons.prems(1) ne(1)] obtain sub0 sub where
      s: "insertPath r leaf sub0 = Some sub" "cur' = AList.update k (DirNode sub) cur"
      "\<forall>qs. qs \<noteq> [] \<longrightarrow> lookupPath cur (k # qs) = lookupPath sub0 qs"
      by blast
    from Cons.IH [OF s(1) np] s(2,3) ne(2) True qs show ?thesis
      by (simp add: lookupPath_update_same)
  qed
qed

lemma insertPath_None:
  assumes "insertPath ps leaf cur = None" and "walkable ps"
  shows "\<exists>qs c su ts. strict_prefix qs ps \<and> lookupPath cur qs = Some (FileNode c su ts)"
  using assms
proof (induction ps arbitrary: cur)
  case Nil
  then show ?case by simp
next
  case (Cons k r)
  then have ne: "r \<noteq> []" by (auto simp: insertPath_Cons walkable_Cons split: if_splits)
  with Cons.prems(2) have w: "k \<notin> set inheritedNames" "walkable r"
    by (simp_all add: walkable_Cons)
  show ?case
  proof (cases "map_of cur k")
    case None
    with Cons.prems ne w have "insertPath r leaf [] = None"
      by (simp add: insertPath_Cons)
    from Cons.IH [OF this w(2)] show ?thesis by (simp add: lookupPath_empty)
  next
    case (Some n)
    show ?thesis
    proof (cases n)
      case (FileNode c su ts)
      with Some ne have "strict_prefix [k] (k # r)" "lookupPath cur [k] = Some (FileNode c su ts)"
        by (simp_all add: strict_prefix_def)
      then show ?thesis by blast
    next
      case (DirNode sub0)
      with Some Cons.prems ne have "insertPath r leaf sub0 = None"
        by (simp add: insertPath_Cons)
      from Cons.IH [OF this w(2)] obtain qs c su ts where
        q: "strict_prefix qs r" "lookupPath sub0 qs = Some (FileNode c su ts)"
        by blast
      then have "qs \<noteq> []" by auto
      with q Some DirNode have "strict_prefix (k # qs) (k # r)"
        "lookupPath cur (k # qs) = Some (FileNode c su ts)"
        by (simp_all add: lookupPath_Cons)
      then show ?thesis by blast
    qed
  qed
qed

lemma insertPath_through:
  assumes "insertPath ps leaf cur = Some cur'" and "strict_prefix qs ps" and "qs \<noteq> []"
  shows "\<exists>sub. lookupPath cur' qs = Some (DirNode sub)"
  using assms
proof (induction ps arbitrary: cur cur' qs)
  case Nil
  then show ?case by simp
next
  case (Cons k r)
  from Cons.prems(2,3) obtain qs' where qs: "qs = k # qs'" "strict_prefix qs' r"
    by (cases qs) auto
  then have ne: "r \<noteq> []" by auto
  from insertPath_step [OF Cons.prems(1) ne] obtain sub0 sub where
    s: "insertPath r leaf sub0 = Some sub" "cur' = AList.update k (DirNode sub) cur"
    by blast
  show ?case
  proof (cases "qs' = []")
    case True
    with qs s show ?thesis by (simp add: update_conv')
  next
    case False
    from Cons.IH [OF s(1) qs(2) False] s(2) qs(1) False show ?thesis
      by (simp add: lookupPath_update_same)
  qed
qed

lemma lookupPath_below_file:
  assumes "lookupPath t ps = Some (FileNode c su ts)" and "strict_prefix ps qs"
  shows "lookupPath t qs = None"
  using assms
proof (induction ps arbitrary: t qs)
  case Nil
  then show ?case by simp
next
  case (Cons k r)
  from Cons.prems(2) obtain qs' where qs: "qs = k # qs'" "strict_prefix r qs'"
    by (cases qs) auto
  then have ne: "qs' \<noteq> []" by auto
  show ?case
  proof (cases "r = []")
    case True
    with Cons.prems(1) qs ne show ?thesis by (simp add: lookupPath_Cons)
  next
    case False
    with Cons.prems(1) obtain sub where sub: "map_of t k = Some (DirNode sub)"
      "lookupPath sub r = Some (FileNode c su ts)"
      by (auto simp: lookupPath_Cons split: option.splits node.splits)
    from Cons.IH [OF sub(2) qs(2)] sub(1) qs(1) ne show ?thesis
      by (simp add: lookupPath_Cons)
  qed
qed

lemma insertPath_files:
  assumes "insertPath ps (FileNode c0 su0 ts0) cur = Some cur'" and "ps \<noteq> []"
    and "lookupPath cur' qs = Some (FileNode c su ts)"
  shows "(qs = ps \<and> FileNode c0 su0 ts0 = FileNode c su ts) \<or>
    (lookupPath cur qs = Some (FileNode c su ts) \<and> \<not> prefix ps qs \<and> \<not> prefix qs ps)"
proof -
  have same: "lookupPath cur' ps = Some (FileNode c0 su0 ts0)"
    using insertPath_same [OF assms(2,1)] .
  consider "qs = ps" | "strict_prefix qs ps" | "strict_prefix ps qs"
    | "\<not> prefix ps qs" "\<not> prefix qs ps"
    by (auto simp: strict_prefix_def)
  then show ?thesis
  proof cases
    case 1
    with same assms(3) show ?thesis by simp
  next
    case 2
    show ?thesis
    proof (cases "qs = []")
      case True
      with assms(3) show ?thesis by simp
    next
      case False
      from insertPath_through [OF assms(1) 2 False] assms(3) show ?thesis by auto
    qed
  next
    case 3
    from lookupPath_below_file [OF same 3] assms(3) show ?thesis by simp
  next
    case 4
    from insertPath_other [OF assms(1) 4] assms(3) 4 show ?thesis by simp
  qed
qed


lemma str_split_nonempty: "str_split c s \<noteq> []"
  by (induction s) (auto split: list.splits)

lemma parts_nonempty: "parts e p \<noteq> []"
  by (simp add: parts_def str_split_nonempty)

lemma insertEntry_Some:
  "insertEntry e x (Some c) = insertPath (parts e (fst x)) (leafOf (snd x)) c"
  by (simp add: insertEntry_def)

lemma fold_insert_None:
  "fold (insertEntry e) xs None = None"
  by (induction xs) (auto simp: insertEntry_def)

lemma represents_insert:
  assumes u: "unambiguous e (insert x D)" and r: "represents e cur D"
    and w: "walkable (parts e (fst x))"
  shows "\<exists>cur'. insertPath (parts e (fst x)) (leafOf (snd x)) cur = Some cur' \<and>
    represents e cur' (insert x D)"
proof -
  let ?ps = "parts e (fst x)"
  obtain c0 su0 ts0 where leaf: "leafOf (snd x) = FileNode c0 su0 ts0"
    by (simp add: leafOf_def)
  have "insertPath ?ps (leafOf (snd x)) cur \<noteq> None"
  proof
    assume "insertPath ?ps (leafOf (snd x)) cur = None"
    from insertPath_None [OF this w] obtain qs c su ts where
      q: "strict_prefix qs ?ps" "lookupPath cur qs = Some (FileNode c su ts)"
      by blast
    with r obtain y where y: "y \<in> D" "qs = parts e (fst y)"
      by (auto simp: represents_def)
    with q(1) u have "y = x"
      by (auto simp: unambiguous_def strict_prefix_def)
    with y q(1) show False by simp
  qed
  then obtain cur' where ins: "insertPath ?ps (leafOf (snd x)) cur = Some cur'"
    by blast
  have "represents e cur' (insert x D)"
    unfolding represents_def
  proof (intro allI iffI)
    fix qs c su ts
    assume "lookupPath cur' qs = Some (FileNode c su ts)"
    from insertPath_files [OF ins [unfolded leaf] parts_nonempty this]
    show "\<exists>y\<in>insert x D. qs = parts e (fst y) \<and> leafOf (snd y) = FileNode c su ts"
      using r leaf by (auto simp: represents_def)
  next
    fix qs c su ts
    assume "\<exists>y\<in>insert x D. qs = parts e (fst y) \<and> leafOf (snd y) = FileNode c su ts"
    then obtain y where y: "y \<in> insert x D" "qs = parts e (fst y)"
      "leafOf (snd y) = FileNode c su ts"
      by blast
    show "lookupPath cur' qs = Some (FileNode c su ts)"
    proof (cases "y = x")
      case True
      with y insertPath_same [OF parts_nonempty ins] show ?thesis by simp
    next
      case False
      with y(1) have "y \<in> D" by simp
      with r y have old: "lookupPath cur qs = Some (FileNode c su ts)"
        by (auto simp: represents_def)
      from False y(1) u have "\<not> prefix ?ps qs" "\<not> prefix qs ?ps"
        unfolding unambiguous_def y(2) by blast+
      from insertPath_other [OF ins this] old show ?thesis by simp
    qed
  qed
  with ins show ?thesis by blast
qed

lemma fold_insert:
  assumes "unambiguous e (D \<union> set xs)" and "represents e cur D"
    and "\<forall>x\<in>set xs. walkable (parts e (fst x))"
  shows "\<exists>cur'. fold (insertEntry e) xs (Some cur) =
        Some cur' \<and> represents e cur' (D \<union> set xs)"
  using assms
proof (induction xs arbitrary: cur D)
  case Nil
  then show ?case by simp
next
  case (Cons x xs)
  from Cons.prems(1) have "unambiguous e (insert x D)"
    by (auto simp: unambiguous_def)
  moreover from Cons.prems(3) have "walkable (parts e (fst x))"
    by simp
  ultimately obtain cur1 where
    c1: "insertPath (parts e (fst x)) (leafOf (snd x)) cur = Some cur1"
    "represents e cur1 (insert x D)"
    using represents_insert [OF _ Cons.prems(2)] by blast
  from Cons.prems(1) have "unambiguous e (insert x D \<union> set xs)"
    by simp
  moreover from Cons.prems(3) have "\<forall>x\<in>set xs. walkable (parts e (fst x))"
    by simp
  ultimately show ?case
    using Cons.IH [OF _ c1(2)] c1(1) by (simp add: insertEntry_Some)
qed

lemma set_newestFirst: "set (newestFirst xs) = set xs"
  by (simp add: newestFirst_def)

lemma buildFileTree_represents:
  assumes "\<forall>x\<in>set filesObj. \<forall>y\<in>set filesObj.
      prefix (parts e (fst x)) (parts e (fst y)) \<longrightarrow> x = y"
    and "\<forall>x\<in>set filesObj. walkable (parts e (fst x))"
  shows "\<exists>tree. buildFileTree e filesObj = Some tree \<and>
    (\<forall>qs c su ts. lookupPath (treeFiles tree) qs = Some (FileNode c su ts) \<longleftrightarrow>
       (\<exists>x\<in>set filesObj. qs = parts e (fst x) \<and> leafOf (snd x) = FileNode c su ts))"
proof -
  have "unambiguous e ({} \<union> set (newestFirst filesObj))"
    using assms(1) by (simp add: unambiguous_def set_newestFirst)
  moreover have "represents e [] {}"
    by (simp add: represents_def lookupPath_empty)
  moreover have "\<forall>x\<in>set (newestFirst filesObj). walkable (parts e (fst x))"
    using assms(2) by (simp add: set_newestFirst)
  ultimately obtain cur' where
    "fold (insertEntry e)
       (newestFirst filesObj) (Some []) = Some cur'"
    "represents e cur' ({} \<union> set (newestFirst filesObj))"
    using fold_insert by blast
  then show ?thesis
    by (simp add: buildFileTree_def represents_def set_newestFirst)
qed


lemma sublist_concat_map:
  assumes "z \<in> set zs"
  shows "sublist (f z) (concat (map f zs))"
proof -
  from assms obtain as bs where "zs = as @ z # bs"
    by (auto simp: in_set_conv_decomp)
  then show ?thesis
    by (auto simp: sublist_def)
qed

lemma in_zip_index:
  assumes "x \<in> set xs"
  shows "\<exists>i. (i, x) \<in> set (zip [0..<length xs] xs)"
proof -
  from assms obtain i where "i < length xs" "xs ! i = x"
    by (auto simp: in_set_conv_nth)
  then have "(i, x) \<in> set (zip [0..<length xs] xs)"
    by (auto simp: in_set_zip intro!: exI [of _ i])
  then show ?thesis ..
qed

lemma entry_sublist:
  assumes "(key, value) \<in> set obj"
  shows "\<exists>index::nat. sublist
    ((if 0 < index then [[]] else []) @
     (if isFile value then fileLines e (indentOf level) key value
      else dirLines (indentOf level) key @
        (case value of
           DirNode children \<Rightarrow> formatTreeLevel e children (level + 1)
         | FileNode c su ts \<Rightarrow> [])))
    (formatTreeLevel e obj level)"
proof -
  let ?f = "\<lambda>(index, key, value).
     (if 0 < index then [[]] else []) @
     (if isFile value then fileLines e (indentOf level) key value
      else dirLines (indentOf level) key @
        (case value of
           DirNode children \<Rightarrow> formatTreeLevel e children (level + 1)
         | FileNode c su ts \<Rightarrow> []))"
  let ?entries = "sortedEntries e obj"
  from assms have "(key, value) \<in> set ?entries"
    by (simp add: set_sortedEntries)
  from in_zip_index [OF this] obtain index where
    "(index, key, value) \<in> set (zip [0..<length ?entries] ?entries)"
    by blast
  from sublist_concat_map [OF this, of ?f]
  have "sublist (?f (index, key, value)) (formatTreeLevel e obj level)"
    by (subst formatTreeLevel.simps) (simp add: Let_def)
  then show ?thesis
    unfolding prod.case by (rule exI)
qed

lemma sublist_transitive: "sublist xs ys \<Longrightarrow> sublist ys zs \<Longrightarrow> sublist xs zs"
  using sublist_order.order_trans by blast

lemma formatTreeLevel_file:
  assumes "lookupPath t ps = Some (FileNode c su ts)"
    and "\<forall>qs children. strict_prefix qs ps \<longrightarrow> lookupPath t qs = Some (DirNode children) \<longrightarrow>
           map_of children ''created'' = None"
  shows "sublist (fileLines e (indentOf (level + length ps - 1)) (last ps) (FileNode c su ts))
    (formatTreeLevel e t level)"
  using assms
proof (induction ps arbitrary: t level)
  case Nil
  then show ?case by simp
next
  case (Cons k r)
  show ?case
  proof (cases "r = []")
    case True
    with Cons.prems(1) have "(k, FileNode c su ts) \<in> set t"
      by (simp add: map_of_SomeD)
    from entry_sublist [OF this, of e level] obtain index :: nat where
      "sublist ((if 0 < index then [[]] else []) @
         fileLines e (indentOf level) k (FileNode c su ts)) (formatTreeLevel e t level)"
      by (auto simp: isFile_def)
    then have "sublist (fileLines e (indentOf level) k (FileNode c su ts))
        (formatTreeLevel e t level)"
      using sublist_transitive sublist_append_leftI by blast
    with True show ?thesis by simp
  next
    case False
    with Cons.prems(1) obtain children where ch: "map_of t k = Some (DirNode children)"
      "lookupPath children r = Some (FileNode c su ts)"
      by (auto simp: lookupPath_Cons split: option.splits node.splits)
    from False have "strict_prefix [k] (k # r)"
      by (simp add: strict_prefix_def)
    moreover from ch(1) have "lookupPath t [k] = Some (DirNode children)"
      by simp
    ultimately have "map_of children ''created'' = None"
      using Cons.prems(2) by blast
    then have nf: "\<not> isFile (DirNode children)"
      by (simp add: isFile_def)
    have below: "\<forall>qs children'. strict_prefix qs r \<longrightarrow>
        lookupPath children qs = Some (DirNode children') \<longrightarrow>
        map_of children' ''created'' = None"
    proof (intro allI impI)
      fix qs children'
      assume q: "strict_prefix qs r" "lookupPath children qs = Some (DirNode children')"
      then have "qs \<noteq> []" by auto
      with q ch(1) have "strict_prefix (k # qs) (k # r)"
        "lookupPath t (k # qs) = Some (DirNode children')"
        by (simp_all add: lookupPath_Cons)
      with Cons.prems(2) show "map_of children' ''created'' = None"
        by blast
    qed
    from Cons.IH [OF ch(2) below, of "level + 1"]
    have inner: "sublist (fileLines e (indentOf (level + length (k # r) - 1)) (last (k # r))
        (FileNode c su ts)) (formatTreeLevel e children (level + 1))"
      using False by simp
    from ch(1) have "(k, DirNode children) \<in> set t"
      by (simp add: map_of_SomeD)
    from entry_sublist [OF this, of e level] nf obtain index :: nat where
      "sublist ((if 0 < index then [[]] else []) @ dirLines (indentOf level) k @
         formatTreeLevel e children (level + 1)) (formatTreeLevel e t level)"
      by auto
    moreover have "sublist (formatTreeLevel e children (level + 1))
        ((if 0 < index then [[]] else []) @ dirLines (indentOf level) k @
         formatTreeLevel e children (level + 1))"
      unfolding sublist_def
      by (intro exI [of _ "(if 0 < index then [[]] else []) @ dirLines (indentOf level) k"]
          exI [of _ "[]"]) simp
    ultimately show ?thesis
      using inner sublist_transitive by blast
  qed
qed

lemma insertPath_nodes:
  assumes "insertPath ps (FileNode c0 su0 ts0) cur = Some cur'" and "ps \<noteq> []"
    and "lookupPath cur' qs \<noteq> None"
  shows "prefix qs ps \<or> lookupPath cur qs \<noteq> None"
proof (cases "prefix qs ps")
  case True
  then show ?thesis ..
next
  case np: False
  show ?thesis
  proof (cases "prefix ps qs")
    case True
    with np have "strict_prefix ps qs" by (auto simp: strict_prefix_def)
    from lookupPath_below_file [OF insertPath_same [OF assms(2,1)] this] assms(3)
    show ?thesis by simp
  next
    case False
    from insertPath_other [OF assms(1) False np] assms(3) show ?thesis by simp
  qed
qed

lemma lookupPath_snoc:
  assumes "lookupPath t qs = Some (DirNode children)"
  shows "lookupPath t (qs @ [k]) = map_of children k"
  using assms
proof (induction qs arbitrary: t)
  case Nil
  then show ?case by simp
next
  case (Cons q qs)
  show ?case
  proof (cases "qs = []")
    case True
    with Cons.prems show ?thesis by simp
  next
    case False
    with Cons.prems obtain sub where "map_of t q = Some (DirNode sub)"
      "lookupPath sub qs = Some (DirNode children)"
      by (auto simp: lookupPath_Cons split: option.splits node.splits)
    with Cons.IH [OF this(2)] show ?thesis
      by (simp add: lookupPath_Cons)
  qed
qed

lemma fold_insert_onPaths:
  assumes "onPaths e cur D"
    and "fold (insertEntry e) xs (Some cur) =
        Some cur'"
  shows "onPaths e cur' (D \<union> set xs)"
  using assms
proof (induction xs arbitrary: cur D)
  case Nil
  then show ?case by simp
next
  case (Cons x xs)
  let ?f = "insertEntry e"
  obtain cur1 where c1: "insertPath (parts e (fst x)) (leafOf (snd x)) cur = Some cur1"
  proof (cases "insertPath (parts e (fst x)) (leafOf (snd x)) cur")
    case None
    with Cons.prems(2) fold_insert_None [of e xs] show ?thesis
      by (simp add: insertEntry_Some)
  next
    case (Some a)
    then show ?thesis using that by blast
  qed
  have "onPaths e cur1 (insert x D)"
    unfolding onPaths_def
  proof (intro allI impI)
    fix qs
    assume "lookupPath cur1 qs \<noteq> None"
    from insertPath_nodes [OF c1 [unfolded leafOf_def] parts_nonempty this] Cons.prems(1)
    show "\<exists>y\<in>insert x D. prefix qs (parts e (fst y))"
      by (auto simp: onPaths_def)
  qed
  moreover from Cons.prems(2) c1 have "fold ?f xs (Some cur1) = Some cur'"
    by (simp add: insertEntry_Some)
  ultimately have "onPaths e cur' (insert x D \<union> set xs)"
    by (rule Cons.IH)
  then show ?case by simp
qed


lemma parts_example:
  "parts exampleEnv ''/w/docs/a.md'' = [''docs'', ''a.md'']"
  "parts exampleEnv ''/w/b.txt'' = [''b.txt'']"
  "parts exampleEnv ''/w/notes.md'' = [''notes.md'']"
  by code_simp+

text \<open>
  What \<open>saveMetadata\<close> writes. Take an index in which no two entries have the same
  relative path, none lies below another, every path can be followed inside the tree,
  and no part of a path is named \<open>created\<close>. Then there is a document: the header, the
  lines of the tree joined by newlines, and the footer. The files of the tree are
  exactly the records of the index, each under the parts of its relative path with its
  \<open>created\<close>, \<open>summary\<close> and \<open>tags\<close>; and for each record the lines of the tree
  hold, one after the other, the five lines of \<open>fileLines\<close>.
\<close>

lemma buildFileTree_document:
  assumes "\<forall>x\<in>set filesObj. \<forall>y\<in>set filesObj.
      prefix (parts e (fst x)) (parts e (fst y)) \<longrightarrow> x = y"
    and "\<forall>x\<in>set filesObj. walkable (parts e (fst x))"
    and "\<forall>x\<in>set filesObj. ''created'' \<notin> set (parts e (fst x))"
  shows "\<exists>tree. buildFileTree e filesObj = Some tree \<and>
    fullContent e filesObj =
      Some (header e (length filesObj) @ join [NL] (yamlLines e tree) @ footer) \<and>
    (\<forall>qs c su ts. lookupPath (treeFiles tree) qs = Some (FileNode c su ts) \<longleftrightarrow>
       (\<exists>x\<in>set filesObj. qs = parts e (fst x) \<and> leafOf (snd x) = FileNode c su ts)) \<and>
    (\<forall>x\<in>set filesObj.
       sublist
         (fileLines e (indentOf (length (parts e (fst x)) + 1)) (last (parts e (fst x)))
            (leafOf (snd x)))
         (yamlLines e tree))"
proof -
  from buildFileTree_represents [OF assms(1,2)] obtain tree where
    tree: "buildFileTree e filesObj = Some tree"
    and rep: "\<forall>qs c su ts. lookupPath (treeFiles tree) qs = Some (FileNode c su ts) \<longleftrightarrow>
       (\<exists>x\<in>set filesObj. qs = parts e (fst x) \<and> leafOf (snd x) = FileNode c su ts)"
    by blast
  from tree have fold: "fold (insertEntry e) (newestFirst filesObj) (Some []) =
      Some (treeFiles tree)"
    by (auto simp: buildFileTree_def)
  have "onPaths e [] {}"
    by (simp add: onPaths_def lookupPath_empty)
  from fold_insert_onPaths [OF this fold]
  have on: "onPaths e (treeFiles tree) (set filesObj)"
    by (simp add: set_newestFirst)
  have doc: "fullContent e filesObj =
      Some (header e (length filesObj) @ join [NL] (yamlLines e tree) @ footer)"
    using tree by (simp add: fullContent_def formatYamlWithSpacing_def)
  have lines: "sublist
         (fileLines e (indentOf (length (parts e (fst x)) + 1)) (last (parts e (fst x)))
            (leafOf (snd x)))
         (yamlLines e tree)" if x: "x \<in> set filesObj" for x
  proof -
    let ?ps = "parts e (fst x)"
    obtain c su ts where leaf: "leafOf (snd x) = FileNode c su ts"
      by (simp add: leafOf_def)
    with rep x have look: "lookupPath (treeFiles tree) ?ps = Some (FileNode c su ts)"
      by blast
    have dirs: "\<forall>qs children. strict_prefix qs ?ps \<longrightarrow>
        lookupPath (treeFiles tree) qs = Some (DirNode children) \<longrightarrow>
        map_of children ''created'' = None"
    proof (intro allI impI)
      fix qs children
      assume q: "lookupPath (treeFiles tree) qs = Some (DirNode children)"
      show "map_of children ''created'' = None"
      proof (rule ccontr)
        assume "map_of children ''created'' \<noteq> None"
        with lookupPath_snoc [OF q, of "''created''"]
        have "lookupPath (treeFiles tree) (qs @ [''created'']) \<noteq> None"
          by simp
        with on obtain y where "y \<in> set filesObj"
          "prefix (qs @ [''created'']) (parts e (fst y))"
          by (auto simp: onPaths_def)
        then have "y \<in> set filesObj" "''created'' \<in> set (parts e (fst y))"
          by (auto simp: prefix_def)
        with assms(3) show False by blast
      qed
    qed
    from formatTreeLevel_file [OF look dirs, of e 2] parts_nonempty [of e "fst x"]
    have inner: "sublist (fileLines e (indentOf (length ?ps + 1)) (last ?ps) (FileNode c su ts))
        (formatTreeLevel e (treeFiles tree) 2)"
      by (cases ?ps) simp_all
    from look have ne: "treeFiles tree \<noteq> []"
      by (auto simp: lookupPath_empty)
    have "\<exists>H. yamlLines e tree = H @ formatTreeLevel e (treeFiles tree) 2"
      unfolding yamlLines_def if_P [OF ne] by (rule exI) (rule refl)
    then obtain H where H: "yamlLines e tree = H @ formatTreeLevel e (treeFiles tree) 2"
      by blast
    have "sublist (formatTreeLevel e (treeFiles tree) 2) (yamlLines e tree)"
      unfolding H by (rule sublist_append_leftI)
    with inner show ?thesis
      unfolding leaf by (rule sublist_transitive)
  qed
  then have all_lines: "\<forall>x\<in>set filesObj.
       sublist
         (fileLines e (indentOf (length (parts e (fst x)) + 1)) (last (parts e (fst x)))
            (leafOf (snd x)))
         (yamlLines e tree)"
    by blast
  show ?thesis
    by (intro exI [of _ tree] conjI) (rule tree doc rep all_lines)+
qed

text \<open>
  An index of two records, one of them in a directory, is such an index.
\<close>

lemma buildFileTree_document_example:
  "\<exists>tree.
     buildFileTree exampleEnv
       [(''/w/docs/a.md'', exampleRecord 0), (''/w/b.txt'', exampleRecord 60000)] = Some tree \<and>
     lookupPath (treeFiles tree) [''docs'', ''a.md''] =
       Some (FileNode 0 ''Notes'' [''md'', ''docs'']) \<and>
     sublist (fileLines exampleEnv (indentOf 3) ''a.md'' (FileNode 0 ''Notes'' [''md'', ''docs'']))
       (yamlLines exampleEnv tree)"
proof -
  let ?idx = "[(''/w/docs/a.md'', exampleRecord 0), (''/w/b.txt'', exampleRecord 60000)]"
  have h1: "\<forall>x\<in>set ?idx. \<forall>y\<in>set ?idx.
      prefix (parts exampleEnv (fst x)) (parts exampleEnv (fst y)) \<longrightarrow> x = y"
    by (simp add: parts_example)
  have h2: "\<forall>x\<in>set ?idx. walkable (parts exampleEnv (fst x))"
    by (simp add: parts_example inheritedNames_def)
  have h3: "\<forall>x\<in>set ?idx. ''created'' \<notin> set (parts exampleEnv (fst x))"
    by (simp add: parts_example)
  from buildFileTree_document [OF h1 h2 h3] obtain tree where
    t: "buildFileTree exampleEnv ?idx = Some tree"
    "\<forall>qs c su ts. lookupPath (treeFiles tree) qs = Some (FileNode c su ts) \<longleftrightarrow>
       (\<exists>x\<in>set ?idx. qs = parts exampleEnv (fst x) \<and> leafOf (snd x) = FileNode c su ts)"
    "\<forall>x\<in>set ?idx.
       sublist
         (fileLines exampleEnv (indentOf (length (parts exampleEnv (fst x)) + 1))
            (last (parts exampleEnv (fst x))) (leafOf (snd x)))
         (yamlLines exampleEnv tree)"
    by blast
  have "\<exists>x\<in>set ?idx. [''docs'', ''a.md''] = parts exampleEnv (fst x) \<and>
      leafOf (snd x) = FileNode 0 ''Notes'' [''md'', ''docs'']"
    by (simp add: parts_example leafOf_def exampleRecord_def)
  with t(2) have "lookupPath (treeFiles tree) [''docs'', ''a.md''] =
       Some (FileNode 0 ''Notes'' [''md'', ''docs''])"
    by blast
  moreover from t(3) have "sublist
      (fileLines exampleEnv (indentOf 3) ''a.md'' (FileNode 0 ''Notes'' [''md'', ''docs'']))
      (yamlLines exampleEnv tree)"
    by (simp add: parts_example leafOf_def exampleRecord_def numeral_3_eq_3)
  ultimately show ?thesis using t(1) by blast
qed

text \<open>
  A directory named as an inherited property: the walk of \<open>buildFileTree\<close> leaves the
  tree there, and the model gives no document.
\<close>

lemma buildFileTree_constructor:
  "buildFileTree exampleEnv [(''/w/constructor/a.md'', exampleRecord 0)] = None"
proof -
  have "parts exampleEnv ''/w/constructor/a.md'' = [''constructor'', ''a.md'']"
    by code_simp
  then show ?thesis
    by (simp add: buildFileTree_def newestFirst_def insertEntry_def inheritedNames_def)
qed

section \<open>Properties of the round trip\<close>

lemma objectEntries_single: "objectEntries [kv] = [kv]"
  by (simp add: objectEntries_def)

lemma formatTreeLevel_single:
  "formatTreeLevel e [(key, FileNode c su ts)] level =
     fileLines e (indentOf level) key (FileNode c su ts)"
  by (subst formatTreeLevel.simps)
    (simp add: Let_def sortedEntries_def objectEntries_single isFile_def sortBy_def)

lemma fullContent_single:
  assumes "parts e p = [key]" and "key \<noteq> ''__proto__''"
  shows "fullContent e [(p, m)] =
    Some (header e 1 @
      join [NL]
        ([''workspace: '' @ workspaceRoot e,
          ''lastUpdated: '' @ [CHR 0x27] @ toISOString (now e) @ [CHR 0x27],
          ''totalFiles: '' @ show_nat 1,
          [],
          ''files:'',
          [],
          ''  # === '' @ rootIcon @ '' Root'',
          ''  Root:''] @
         fileLines e (indentOf 2) key (leafOf m)) @ footer)"
  using assms
  by (simp add: fullContent_def buildFileTree_def newestFirst_def insertEntry_def
      formatYamlWithSpacing_def yamlLines_def leafOf_def formatTreeLevel_single)

text \<open>
  The five lines of a record whose \<open>created\<close> is 30 seconds after the epoch, in a
  document written a day and 45 seconds after the epoch: the \<open>created\<close> line has the
  date, the hour and the minute, and the age.
\<close>

lemma fileLines_example:
  "fileLines exampleEnv (indentOf 2) ''notes.md'' (leafOf (exampleRecord 30000)) =
     [''    # '' @ getFileIcon ''notes.md'' @ '' notes.md  >> 1d ago <<'',
      ''    notes.md:'',
      ''      created: 01 Jan 1970 00:00 >>(1d ago)<<'',
      ''      summary: Notes'',
      ''      tags: [md, docs]'']"
  by code_simp

lemma fileLines_example_seconds:
  "fileLines exampleEnv (indentOf 2) ''notes.md'' (leafOf (exampleRecord 0)) =
   fileLines exampleEnv (indentOf 2) ''notes.md'' (leafOf (exampleRecord 30000))"
  unfolding leafOf_def exampleRecord_def
  by (simp, rule fileLines_minute) (simp_all add: exampleEnv_def localTime_def)

lemma exampleEnv_lines:
  "workspaceRoot exampleEnv = ''/w''"
  "toISOString (now exampleEnv) = ''1970-01-02T00:00:45.000Z''"
  "show_nat 1 = ''1''"
  by code_simp+

text \<open>
  In general: two records of one file that differ only in \<open>created\<close>, by instants
  of the same local minute and of the same age in minutes, are written as the same
  document.
\<close>

lemma fullContent_minute:
  assumes "parts e p = [key]" and "key \<noteq> ''__proto__''"
    and "localTime e c div 60000 = localTime e c' div 60000"
    and "(now e - c) div 60000 = (now e - c') div 60000"
  shows "fullContent e [(p, m\<lparr>created := c\<rparr>)] = fullContent e [(p, m\<lparr>created := c'\<rparr>)]"
  using fileLines_minute [OF assms(3,4)]
  by (simp add: fullContent_single [OF assms(1,2)] leafOf_def)

text \<open>
  The text of the tags is the elements joined by a comma and a space, without quotes:
  the one tag \<open>md, docs\<close> and the two tags \<open>md\<close> and \<open>docs\<close> are written alike.
\<close>

lemma fullContent_tags_joined:
  "fullContent exampleEnv [(''/w/notes.md'', (exampleRecord 0)\<lparr>tags := [''md, docs'']\<rparr>)] =
   fullContent exampleEnv [(''/w/notes.md'', (exampleRecord 0)\<lparr>tags := [''md'', ''docs'']\<rparr>)]"
  by (simp add: fullContent_single [OF parts_example(3)] leafOf_def exampleRecord_def
      fileLines_def tagsText_def jsDate_def summaryText_def)

text \<open>
  Every document begins with the first line of the header, which is plain text and not
  a comment of YAML; and when the parser rejects a document, \<open>loadMetadata\<close> copies the
  file to a backup and starts with an empty index.
\<close>

lemma fullContent_begins:
  assumes "fullContent e filesObj = Some document"
  shows "prefix (''TIMEPON FILE TRACKING'' @ [NL] @ workspaceRoot e @ [NL] @ RULE @ [NL] @
    ''Last Updated:     '') document"
  using assms
  by (auto simp: fullContent_def header_def prefix_def)

lemma loadMetadata_rejected:
  "parse document = None \<Longrightarrow> loadMetadata parse (Some document) = BackedUpAndReset"
  by (simp add: loadMetadata_def)

text \<open>
  C1 at an index of one record, created 30 seconds after the epoch: the round trip of
  \<open>saveMetadata\<close> and \<open>loadMetadata\<close> does not keep the timestamp to the second. The
  document that \<open>saveMetadata\<close> writes is the header, the lines below and the footer;
  its \<open>created\<close> line has the minute and the age, and no seconds. It is the very
  document written for the record created at the epoch itself, so \<open>loadMetadata\<close>
  ends in the same state for both indexes, whatever the YAML parser \<open>parse\<close> makes of
  the text.
\<close>

theorem saveMetadata_loadMetadata_seconds:
  "fullContent exampleEnv [(''/w/notes.md'', exampleRecord 30000)] =
     Some (header exampleEnv 1 @
           join [NL]
             [''workspace: /w'',
              ''lastUpdated: '' @ [CHR 0x27] @ ''1970-01-02T00:00:45.000Z'' @ [CHR 0x27],
              ''totalFiles: 1'',
              [],
              ''files:'',
              [],
              ''  # === '' @ rootIcon @ '' Root'',
              ''  Root:'',
              ''    # '' @ getFileIcon ''notes.md'' @ '' notes.md  >> 1d ago <<'',
              ''    notes.md:'',
              ''      created: 01 Jan 1970 00:00 >>(1d ago)<<'',
              ''      summary: Notes'',
              ''      tags: [md, docs]''] @
           footer) \<and>
   fullContent exampleEnv [(''/w/notes.md'', exampleRecord 0)] =
     fullContent exampleEnv [(''/w/notes.md'', exampleRecord 30000)] \<and>
   saveThenLoad parse exampleEnv [(''/w/notes.md'', exampleRecord 0)] =
     saveThenLoad parse exampleEnv [(''/w/notes.md'', exampleRecord 30000)] \<and>
   saveThenLoad parse exampleEnv [(''/w/notes.md'', exampleRecord 30000)] \<noteq> None \<and>
   created (exampleRecord 0) div 1000 \<noteq> created (exampleRecord 30000) div 1000"
proof -
  have "''notes.md'' \<noteq> ''__proto__''"
    by simp
  note single = fullContent_single [OF parts_example(3) this]
  have doc: "fullContent exampleEnv [(''/w/notes.md'', exampleRecord 30000)] =
     Some (header exampleEnv 1 @
           join [NL]
             [''workspace: /w'',
              ''lastUpdated: '' @ [CHR 0x27] @ ''1970-01-02T00:00:45.000Z'' @ [CHR 0x27],
              ''totalFiles: 1'',
              [],
              ''files:'',
              [],
              ''  # === '' @ rootIcon @ '' Root'',
              ''  Root:'',
              ''    # '' @ getFileIcon ''notes.md'' @ '' notes.md  >> 1d ago <<'',
              ''    notes.md:'',
              ''      created: 01 Jan 1970 00:00 >>(1d ago)<<'',
              ''      summary: Notes'',
              ''      tags: [md, docs]''] @
           footer)"
    unfolding single fileLines_example exampleEnv_lines by simp
  have same: "fullContent exampleEnv [(''/w/notes.md'', exampleRecord 0)] =
     fullContent exampleEnv [(''/w/notes.md'', exampleRecord 30000)]"
    unfolding single fileLines_example_seconds ..
  have load: "saveThenLoad parse exampleEnv [(''/w/notes.md'', exampleRecord 0)] =
     saveThenLoad parse exampleEnv [(''/w/notes.md'', exampleRecord 30000)]"
    unfolding saveThenLoad_def same ..
  have some: "saveThenLoad parse exampleEnv [(''/w/notes.md'', exampleRecord 30000)] \<noteq> None"
    unfolding saveThenLoad_def single by simp
  have differ: "created (exampleRecord 0) div 1000 \<noteq> created (exampleRecord 30000) div 1000"
    by (simp add: exampleRecord_def)
  from doc same load some differ show ?thesis
    by (intro conjI)
qed

section \<open>Properties of the query operations\<close>

text \<open>
  C2 at \<open>hours = 0\<close>: the dispatcher reads the argument as \<open>args.hours || 24\<close>, so a
  zero never reaches the check \<open>hours <= 0\<close> of \<open>getRecentFiles\<close>; the call answers
  with the records of the last 24 hours, not with an error.
\<close>

theorem get_recent_files_zero_hours:
  "get_recent_files e s (Some (Number 0)) =
     Inr (map (\<lambda>(filePath, metadata). (relative (workspaceRoot e) filePath, metadata))
            (newestFirst
               (filter (\<lambda>(filePath, metadata). now e - 24 * 60 * 60 * 1000 < created metadata)
                  (files s))))"
  by (simp add: get_recent_files_def truthy_def getRecentFiles_def)

text \<open>
  The other parts of C2 hold: a negative number of hours is refused, an absent argument
  stands for 24, and for positive hours the answer holds exactly the tracked records
  created after the cutoff, as long as the cutoff is an instant that \<open>Date\<close> can hold
  (at most \<open>8.64e15\<close> milliseconds from the epoch).
\<close>

lemma get_recent_files_negative:
  "h < 0 \<Longrightarrow> get_recent_files e s (Some (Number h)) =
     Inl (Error ''Hours parameter must be a positive number'')"
  by (simp add: get_recent_files_def truthy_def getRecentFiles_def)

lemma get_recent_files_default:
  "get_recent_files e s (Some Undefined) = getRecentFiles e s (Number 24)"
  by (simp add: get_recent_files_def truthy_def)

lemma get_recent_files_positive:
  assumes "0 < h"
    and "\<bar>now e - h * 3600000\<bar> \<le> 8640000000000000"
    and "get_recent_files e s (Some (Number h)) = Inr result"
  shows "snd ` set result =
    {metadata. \<exists>filePath. (filePath, metadata) \<in> set (files s) \<and>
       now e - h * 3600000 < created metadata}"
  using assms(1,3)
  by (force simp: get_recent_files_def truthy_def getRecentFiles_def newestFirst_def
      split: if_splits)

end
